theory Spec2Isabelle
  imports Main "HOL-Library.Multiset"
begin

section \<open>Cards (Card.h, Card.cpp)\<close>

text \<open>
  \<^verbatim>\<open>enum class Rank { Three = 3, ..., Ace = 14, Two = 15 }\<close> and
  \<^verbatim>\<open>enum class Suit { Diamonds = 0, Clubs = 1, Hearts = 2, Spades = 3 }\<close>.
  The enumerators are a datatype; \<open>rank_val\<close> and \<open>suit_val\<close> are the underlying
  integers, which is what \<^verbatim>\<open>static_cast<int>\<close> and the built-in \<^verbatim>\<open><\<close> on a scoped
  enumeration read.
\<close>

datatype Rank =
  Three | Four | Five | Six | Seven | Eight | Nine | Ten | Jack | Queen | King | Ace | Two

fun rank_val :: "Rank \<Rightarrow> int" where
  "rank_val Three = 3"
| "rank_val Four = 4"
| "rank_val Five = 5"
| "rank_val Six = 6"
| "rank_val Seven = 7"
| "rank_val Eight = 8"
| "rank_val Nine = 9"
| "rank_val Ten = 10"
| "rank_val Jack = 11"
| "rank_val Queen = 12"
| "rank_val King = 13"
| "rank_val Ace = 14"
| "rank_val Two = 15"

datatype Suit = Diamonds | Clubs | Hearts | Spades

fun suit_val :: "Suit \<Rightarrow> int" where
  "suit_val Diamonds = 0"
| "suit_val Clubs = 1"
| "suit_val Hearts = 2"
| "suit_val Spades = 3"

text \<open>The class \<^verbatim>\<open>Card\<close>: two private fields, read through \<^verbatim>\<open>getRank()\<close> and \<^verbatim>\<open>getSuit()\<close>.\<close>

record Card =
  getRank :: Rank
  getSuit :: Suit

text \<open>The exceptions the sources throw.\<close>

datatype error = InvalidArgument | RuntimeError

subsection \<open>Comparison operators\<close>

definition card_eq :: "Card \<Rightarrow> Card \<Rightarrow> bool" where
  "card_eq a b = (getRank a = getRank b \<and> getSuit a = getSuit b)"

definition card_ne :: "Card \<Rightarrow> Card \<Rightarrow> bool" where
  "card_ne a b = (\<not> card_eq a b)"

definition card_lt :: "Card \<Rightarrow> Card \<Rightarrow> bool" where
  "card_lt a b =
     (if getRank a \<noteq> getRank b then rank_val (getRank a) < rank_val (getRank b)
      else suit_val (getSuit a) < suit_val (getSuit b))"

definition card_gt :: "Card \<Rightarrow> Card \<Rightarrow> bool" where
  "card_gt a b = card_lt b a"

definition card_le :: "Card \<Rightarrow> Card \<Rightarrow> bool" where
  "card_le a b = (\<not> card_lt b a)"

definition card_ge :: "Card \<Rightarrow> Card \<Rightarrow> bool" where
  "card_ge a b = (\<not> card_lt a b)"

subsection \<open>Text encoding\<close>

text \<open>
  \<^verbatim>\<open>std::toupper\<close> in the default locale: the letters a..z (codes 97..122) move down by
  32, every other character is unchanged.
\<close>

definition toupper :: "char \<Rightarrow> char" where
  "toupper c =
     (let n = (of_char c :: nat)
      in if 97 \<le> n \<and> n \<le> 122 then char_of (n - 32) else c)"

definition charToRank :: "char \<Rightarrow> error + Rank" where
  "charToRank c0 =
     (let c = toupper c0 in
      if c = CHR ''3'' then Inr Three
      else if c = CHR ''4'' then Inr Four
      else if c = CHR ''5'' then Inr Five
      else if c = CHR ''6'' then Inr Six
      else if c = CHR ''7'' then Inr Seven
      else if c = CHR ''8'' then Inr Eight
      else if c = CHR ''9'' then Inr Nine
      else if c = CHR ''T'' \<or> c = CHR ''1'' then Inr Ten
      else if c = CHR ''J'' then Inr Jack
      else if c = CHR ''Q'' then Inr Queen
      else if c = CHR ''K'' then Inr King
      else if c = CHR ''A'' then Inr Ace
      else if c = CHR ''2'' then Inr Two
      else Inl InvalidArgument)"

definition charToSuit :: "char \<Rightarrow> error + Suit" where
  "charToSuit c0 =
     (let c = toupper c0 in
      if c = CHR ''D'' then Inr Diamonds
      else if c = CHR ''C'' then Inr Clubs
      else if c = CHR ''H'' then Inr Hearts
      else if c = CHR ''S'' then Inr Spades
      else Inl InvalidArgument)"

text \<open>
  \<^verbatim>\<open>rankToChar\<close> and \<^verbatim>\<open>suitToChar\<close>: the \<^verbatim>\<open>default: throw\<close> branch of each switch is
  not reachable from a value of the enumeration, so both are total here.
\<close>

fun rankToChar :: "Rank \<Rightarrow> char" where
  "rankToChar Three = CHR ''3''"
| "rankToChar Four = CHR ''4''"
| "rankToChar Five = CHR ''5''"
| "rankToChar Six = CHR ''6''"
| "rankToChar Seven = CHR ''7''"
| "rankToChar Eight = CHR ''8''"
| "rankToChar Nine = CHR ''9''"
| "rankToChar Ten = CHR ''T''"
| "rankToChar Jack = CHR ''J''"
| "rankToChar Queen = CHR ''Q''"
| "rankToChar King = CHR ''K''"
| "rankToChar Ace = CHR ''A''"
| "rankToChar Two = CHR ''2''"

fun suitToChar :: "Suit \<Rightarrow> char" where
  "suitToChar Diamonds = CHR ''D''"
| "suitToChar Clubs = CHR ''C''"
| "suitToChar Hearts = CHR ''H''"
| "suitToChar Spades = CHR ''S''"

fun suitToSymbol :: "Suit \<Rightarrow> string" where
  "suitToSymbol Diamonds = ''D''"
| "suitToSymbol Clubs = ''C''"
| "suitToSymbol Hearts = ''H''"
| "suitToSymbol Spades = ''S''"

text \<open>
  The constructor \<^verbatim>\<open>Card::Card(const std::string&)\<close>. It throws on a string shorter
  than two characters and on an unknown rank or suit character; characters after the
  suit position are not looked at.
\<close>

definition Card_of_string :: "string \<Rightarrow> error + Card" where
  "Card_of_string cardStr =
     (if length cardStr < 2 then Inl InvalidArgument
      else
        let (rankStr, suitPos) =
              (if length cardStr \<ge> 3 \<and> take 2 cardStr = ''10'' then (''10'', 2::nat)
               else (take 1 cardStr, 1))
        in if suitPos \<ge> length cardStr then Inl InvalidArgument
           else (case charToRank (rankStr ! 0) of
                   Inl e \<Rightarrow> Inl e
                 | Inr r0 \<Rightarrow>
                     let r = (if rankStr = ''10'' then Ten else r0)
                     in (case charToSuit (cardStr ! suitPos) of
                           Inl e \<Rightarrow> Inl e
                         | Inr s \<Rightarrow> Inr \<lparr>getRank = r, getSuit = s\<rparr>)))"

definition getRankChar :: "Card \<Rightarrow> char" where
  "getRankChar c = rankToChar (getRank c)"

definition getSuitChar :: "Card \<Rightarrow> char" where
  "getSuitChar c = suitToChar (getSuit c)"

definition getSuitSymbol :: "Card \<Rightarrow> string" where
  "getSuitSymbol c = suitToSymbol (getSuit c)"

definition toString :: "Card \<Rightarrow> string" where
  "toString c = [] @ [getRankChar c] @ [getSuitChar c]"

definition toDisplayString :: "Card \<Rightarrow> string" where
  "toDisplayString c =
     (if getRank c = Ten then ''10'' else [getRankChar c]) @ getSuitSymbol c"

section \<open>Game rules (GameRules.h, GameRules.cpp)\<close>

text \<open>
  The enumerators \<^verbatim>\<open>PlayType::Pair\<close> and \<^verbatim>\<open>FiveCardType::None\<close> carry a suffix: the
  plain names are constructors of HOL's pairs and options.
\<close>

datatype PlayType = Invalid | Single | Pair_t | Triple | FiveCard

datatype FiveCardType = None_t | Straight | Flush | FullHouse | FourOfAKind | StraightFlush

record PlayValidation =
  isValid :: bool
  playType :: PlayType
  fiveCardType :: FiveCardType
  errorMessage :: string

text \<open>The default constructor of \<^verbatim>\<open>PlayValidation\<close>.\<close>

definition PlayValidation_init :: PlayValidation where
  "PlayValidation_init =
     \<lparr>isValid = False, playType = Invalid, fiveCardType = None_t, errorMessage = ''''\<rparr>"

text \<open>
  \<^verbatim>\<open>sortByRank\<close> calls \<^verbatim>\<open>std::sort\<close> with the comparator
  \<^verbatim>\<open>a.getRank() < b.getRank()\<close>. The result is a permutation of the argument in
  non-decreasing rank; \<^verbatim>\<open>std::sort\<close> does not fix the order of cards of equal rank.
  The model sorts by the rank's integer with insertion sort. Every caller reads only the
  ranks of the result, and those are the same for every rank-sorted permutation (lemma
  \<open>sortByRank_ranks_unique\<close> below).
\<close>

definition sortByRank :: "Card list \<Rightarrow> Card list" where
  "sortByRank cards = sort_key (\<lambda>c. rank_val (getRank c)) cards"

definition isSingle :: "Card list \<Rightarrow> bool" where
  "isSingle cards = (length cards = 1)"

definition isPair :: "Card list \<Rightarrow> bool" where
  "isPair cards = (length cards = 2 \<and> getRank (cards ! 0) = getRank (cards ! 1))"

definition isTriple :: "Card list \<Rightarrow> bool" where
  "isTriple cards =
     (length cards = 3 \<and>
      getRank (cards ! 0) = getRank (cards ! 1) \<and>
      getRank (cards ! 1) = getRank (cards ! 2))"

text \<open>
  The loop of \<^verbatim>\<open>isStraight\<close>, \<^verbatim>\<open>for (i = 1; i < sorted.size(); ++i)\<close>, compares
  \<^verbatim>\<open>sorted[i - 1]\<close> with \<^verbatim>\<open>sorted[i]\<close> and returns false at the first pair that is not
  one apart.
\<close>

fun consecutiveRanks :: "Card list \<Rightarrow> bool" where
  "consecutiveRanks (p # c # rest) =
     (let prevRank = rank_val (getRank p); currRank = rank_val (getRank c)
      in if currRank \<noteq> prevRank + 1 then False else consecutiveRanks (c # rest))"
| "consecutiveRanks _ = True"

definition isStraight :: "Card list \<Rightarrow> bool" where
  "isStraight cards =
     (if length cards \<noteq> 5 then False
      else let sorted = sortByRank cards in consecutiveRanks sorted)"

text \<open>
  The loop of \<^verbatim>\<open>isFlush\<close> runs over \<^verbatim>\<open>cards[1]\<close>, \<^verbatim>\<open>cards[2]\<close>, ... and returns false
  at the first card whose suit is not the suit of \<^verbatim>\<open>cards[0]\<close>.
\<close>

fun allOfSuit :: "Suit \<Rightarrow> Card list \<Rightarrow> bool" where
  "allOfSuit suit [] = True"
| "allOfSuit suit (c # cs) = (if getSuit c \<noteq> suit then False else allOfSuit suit cs)"

definition isFlush :: "Card list \<Rightarrow> bool" where
  "isFlush cards =
     (if length cards \<noteq> 5 then False
      else let suit = getSuit (cards ! 0) in allOfSuit suit (drop 1 cards))"

definition isFullHouse :: "Card list \<Rightarrow> bool" where
  "isFullHouse cards =
     (if length cards \<noteq> 5 then False
      else
        let sorted = sortByRank cards;
            pattern1 = (getRank (sorted ! 0) = getRank (sorted ! 1) \<and>
                        getRank (sorted ! 1) = getRank (sorted ! 2) \<and>
                        getRank (sorted ! 3) = getRank (sorted ! 4));
            pattern2 = (getRank (sorted ! 0) = getRank (sorted ! 1) \<and>
                        getRank (sorted ! 2) = getRank (sorted ! 3) \<and>
                        getRank (sorted ! 3) = getRank (sorted ! 4))
        in pattern1 \<or> pattern2)"

definition isFourOfAKind :: "Card list \<Rightarrow> bool" where
  "isFourOfAKind cards =
     (if length cards \<noteq> 5 then False
      else
        let sorted = sortByRank cards;
            pattern1 = (getRank (sorted ! 0) = getRank (sorted ! 1) \<and>
                        getRank (sorted ! 1) = getRank (sorted ! 2) \<and>
                        getRank (sorted ! 2) = getRank (sorted ! 3));
            pattern2 = (getRank (sorted ! 1) = getRank (sorted ! 2) \<and>
                        getRank (sorted ! 2) = getRank (sorted ! 3) \<and>
                        getRank (sorted ! 3) = getRank (sorted ! 4))
        in pattern1 \<or> pattern2)"

definition isStraightFlush :: "Card list \<Rightarrow> bool" where
  "isStraightFlush cards = (isStraight cards \<and> isFlush cards)"

definition determineFiveCardType :: "Card list \<Rightarrow> FiveCardType" where
  "determineFiveCardType cards =
     (if length cards \<noteq> 5 then None_t
      else if isStraightFlush cards then StraightFlush
      else if isFourOfAKind cards then FourOfAKind
      else if isFullHouse cards then FullHouse
      else if isFlush cards then Flush
      else if isStraight cards then Straight
      else None_t)"

definition determinePlayType :: "Card list \<Rightarrow> PlayType" where
  "determinePlayType cards =
     (let size = length cards in
      if size = 1 then Single
      else if size = 2 \<and> isPair cards then Pair_t
      else if size = 3 \<and> isTriple cards then Triple
      else if size = 5 then
        (let fiveType = determineFiveCardType cards
         in if fiveType \<noteq> None_t then FiveCard else Invalid)
      else Invalid)"

text \<open>
  \<^verbatim>\<open>getHighestCard\<close> throws \<^verbatim>\<open>std::runtime_error\<close> on an empty vector; otherwise it
  starts from \<^verbatim>\<open>cards[0]\<close> and replaces the running highest card by every later card
  that is strictly greater.
\<close>

fun highestFrom :: "Card \<Rightarrow> Card list \<Rightarrow> Card" where
  "highestFrom highest [] = highest"
| "highestFrom highest (c # cs) = highestFrom (if card_gt c highest then c else highest) cs"

definition getHighestCard :: "Card list \<Rightarrow> error + Card" where
  "getHighestCard cards =
     (case cards of [] \<Rightarrow> Inl RuntimeError | c # cs \<Rightarrow> Inr (highestFrom c cs))"

definition getFiveCardRank :: "FiveCardType \<Rightarrow> int" where
  "getFiveCardRank t =
     (case t of
        Straight \<Rightarrow> 1
      | Flush \<Rightarrow> 2
      | FullHouse \<Rightarrow> 3
      | FourOfAKind \<Rightarrow> 4
      | StraightFlush \<Rightarrow> 5
      | _ \<Rightarrow> 0)"

definition singleBeats :: "Card \<Rightarrow> Card \<Rightarrow> bool" where
  "singleBeats newCard lastCard = card_gt newCard lastCard"

text \<open>
  In the three comparisons below both highest cards are computed before they are
  compared; an exception of either call of \<^verbatim>\<open>getHighestCard\<close> leaves the function.
\<close>

definition pairBeats :: "Card list \<Rightarrow> Card list \<Rightarrow> error + bool" where
  "pairBeats newPair lastPair =
     (if length newPair \<noteq> 2 \<or> length lastPair \<noteq> 2 then Inr False
      else (case getHighestCard newPair of
              Inl e \<Rightarrow> Inl e
            | Inr newHigh \<Rightarrow>
                (case getHighestCard lastPair of
                   Inl e \<Rightarrow> Inl e
                 | Inr lastHigh \<Rightarrow> Inr (card_gt newHigh lastHigh))))"

definition tripleBeats :: "Card list \<Rightarrow> Card list \<Rightarrow> error + bool" where
  "tripleBeats newTriple lastTriple =
     (if length newTriple \<noteq> 3 \<or> length lastTriple \<noteq> 3 then Inr False
      else (case getHighestCard newTriple of
              Inl e \<Rightarrow> Inl e
            | Inr newHigh \<Rightarrow>
                (case getHighestCard lastTriple of
                   Inl e \<Rightarrow> Inl e
                 | Inr lastHigh \<Rightarrow> Inr (card_gt newHigh lastHigh))))"

definition fiveCardBeats :: "Card list \<Rightarrow> Card list \<Rightarrow> error + bool" where
  "fiveCardBeats newCards lastCards =
     (let newType = determineFiveCardType newCards;
          lastType = determineFiveCardType lastCards;
          newRank = getFiveCardRank newType;
          lastRank = getFiveCardRank lastType
      in if newRank > lastRank then Inr True
         else if newRank < lastRank then Inr False
         else (case getHighestCard newCards of
                 Inl e \<Rightarrow> Inl e
               | Inr newHigh \<Rightarrow>
                   (case getHighestCard lastCards of
                      Inl e \<Rightarrow> Inl e
                    | Inr lastHigh \<Rightarrow> Inr (card_gt newHigh lastHigh))))"

text \<open>
  Not a function of the source: the three lines that end \<^verbatim>\<open>pairBeats\<close>,
  \<^verbatim>\<open>tripleBeats\<close> and \<^verbatim>\<open>fiveCardBeats\<close> alike, named for the proofs.
\<close>

definition compareHighest :: "Card list \<Rightarrow> Card list \<Rightarrow> error + bool" where
  "compareHighest newCards lastCards =
     (case getHighestCard newCards of
        Inl e \<Rightarrow> Inl e
      | Inr newHigh \<Rightarrow>
          (case getHighestCard lastCards of
             Inl e \<Rightarrow> Inl e
           | Inr lastHigh \<Rightarrow> Inr (card_gt newHigh lastHigh)))"

definition doesPlayBeat :: "Card list \<Rightarrow> Card list \<Rightarrow> error + bool" where
  "doesPlayBeat newPlay lastPlay =
     (if lastPlay = [] then Inr True
      else if length newPlay \<noteq> length lastPlay then Inr False
      else (case determinePlayType newPlay of
              Single \<Rightarrow> Inr (singleBeats (newPlay ! 0) (lastPlay ! 0))
            | Pair_t \<Rightarrow> pairBeats newPlay lastPlay
            | Triple \<Rightarrow> tripleBeats newPlay lastPlay
            | FiveCard \<Rightarrow> fiveCardBeats newPlay lastPlay
            | _ \<Rightarrow> Inr False))"

text \<open>\<^verbatim>\<open>std::find\<close> with \<^verbatim>\<open>Card::operator==\<close>.\<close>

definition threeOfDiamonds :: Card where
  "threeOfDiamonds = \<lparr>getRank = Three, getSuit = Diamonds\<rparr>"

definition containsThreeOfDiamonds :: "Card list \<Rightarrow> bool" where
  "containsThreeOfDiamonds cards = list_ex (\<lambda>c. card_eq c threeOfDiamonds) cards"

definition validatePlay ::
  "Card list \<Rightarrow> Card list \<Rightarrow> bool \<Rightarrow> bool \<Rightarrow> error + PlayValidation" where
  "validatePlay cards lastPlay isFirstPlay mustIncludeThreeOfDiamonds =
     (let result = PlayValidation_init in
      if cards = [] then Inr (result\<lparr>errorMessage := ''No cards selected''\<rparr>)
      else if mustIncludeThreeOfDiamonds \<and> \<not> containsThreeOfDiamonds cards
        then Inr (result\<lparr>errorMessage := ''First play must include 3 of Diamonds''\<rparr>)
      else
        let result = result\<lparr>playType := determinePlayType cards\<rparr> in
        if playType result = Invalid
          then Inr (result\<lparr>errorMessage := ''Invalid card combination''\<rparr>)
        else
          let result = (if playType result = FiveCard
                        then result\<lparr>fiveCardType := determineFiveCardType cards\<rparr>
                        else result) in
          if playType result = FiveCard \<and> fiveCardType result = None_t
            then Inr (result\<lparr>errorMessage := ''Invalid five-card combination''\<rparr>)
          else if isFirstPlay \<or> lastPlay = [] then Inr (result\<lparr>isValid := True\<rparr>)
          else if length cards \<noteq> length lastPlay
            then Inr (result\<lparr>errorMessage := ''Must play same number of cards as last play''\<rparr>)
          else (case doesPlayBeat cards lastPlay of
                  Inl e \<Rightarrow> Inl e
                | Inr beats \<Rightarrow>
                    if \<not> beats
                      then Inr (result\<lparr>errorMessage := ''Play does not beat the previous play''\<rparr>)
                    else Inr (result\<lparr>isValid := True\<rparr>)))"

section \<open>The card order\<close>

lemma rank_val_inj: "rank_val r = rank_val s \<longleftrightarrow> r = s"
  by (cases r; cases s; simp)

lemma suit_val_inj: "suit_val r = suit_val s \<longleftrightarrow> r = s"
  by (cases r; cases s; simp)

lemma card_eq_iff: "card_eq a b \<longleftrightarrow> a = b"
  by (auto simp: card_eq_def)

lemma card_lt_iff:
  "card_lt a b \<longleftrightarrow>
     rank_val (getRank a) < rank_val (getRank b) \<or>
     (getRank a = getRank b \<and> suit_val (getSuit a) < suit_val (getSuit b))"
  by (auto simp: card_lt_def rank_val_inj)

lemma card_lt_irrefl: "\<not> card_lt a a"
  by (simp add: card_lt_def)

lemma card_lt_trans: "card_lt a b \<Longrightarrow> card_lt b c \<Longrightarrow> card_lt a c"
  by (auto simp: card_lt_iff)

lemma card_lt_total: "card_lt a b \<or> a = b \<or> card_lt b a"
proof -
  have "rank_val (getRank a) < rank_val (getRank b) \<or> getRank a = getRank b \<or>
        rank_val (getRank b) < rank_val (getRank a)"
    using rank_val_inj [of "getRank a" "getRank b"] by linarith
  moreover have "suit_val (getSuit a) < suit_val (getSuit b) \<or> getSuit a = getSuit b \<or>
        suit_val (getSuit b) < suit_val (getSuit a)"
    using suit_val_inj [of "getSuit a" "getSuit b"] by linarith
  ultimately show ?thesis
    by (auto simp: card_lt_iff)
qed

lemma card_lt_asym: "card_lt a b \<Longrightarrow> \<not> card_lt b a"
  using card_lt_trans card_lt_irrefl by blast

text \<open>
  Claim C2. The comparison operators of \<^verbatim>\<open>Card\<close> form a strict total order: of
  \<open>a < b\<close>, \<open>a == b\<close>, \<open>a > b\<close> exactly one holds, \<open><\<close> is irreflexive and transitive,
  and the other operators are its derived forms. Rank is compared first, on the scale
  3 < 4 < 5 < 6 < 7 < 8 < 9 < 10 < J < Q < K < A < 2; the suit, on the scale
  Diamonds < Clubs < Hearts < Spades, decides between cards of one rank. Every Two is
  greater than every Ace, and every Ace is greater than every King.
\<close>

theorem card_order_strict_total:
  "((card_lt a b \<and> \<not> card_eq a b \<and> \<not> card_gt a b) \<or>
    (\<not> card_lt a b \<and> card_eq a b \<and> \<not> card_gt a b) \<or>
    (\<not> card_lt a b \<and> \<not> card_eq a b \<and> card_gt a b)) \<and>
   \<not> card_lt a a \<and>
   (card_lt a b \<and> card_lt b c \<longrightarrow> card_lt a c) \<and>
   (card_eq a b \<longleftrightarrow> a = b) \<and>
   (card_ne a b \<longleftrightarrow> a \<noteq> b) \<and>
   (card_le a b \<longleftrightarrow> card_lt a b \<or> card_eq a b) \<and>
   (card_ge a b \<longleftrightarrow> card_gt a b \<or> card_eq a b) \<and>
   (card_lt a b \<longleftrightarrow>
      rank_val (getRank a) < rank_val (getRank b) \<or>
      (getRank a = getRank b \<and> suit_val (getSuit a) < suit_val (getSuit b))) \<and>
   (rank_val Three < rank_val Four \<and> rank_val Four < rank_val Five \<and>
    rank_val Five < rank_val Six \<and> rank_val Six < rank_val Seven \<and>
    rank_val Seven < rank_val Eight \<and> rank_val Eight < rank_val Nine \<and>
    rank_val Nine < rank_val Ten \<and> rank_val Ten < rank_val Jack \<and>
    rank_val Jack < rank_val Queen \<and> rank_val Queen < rank_val King \<and>
    rank_val King < rank_val Ace \<and> rank_val Ace < rank_val Two) \<and>
   (suit_val Diamonds < suit_val Clubs \<and> suit_val Clubs < suit_val Hearts \<and>
    suit_val Hearts < suit_val Spades) \<and>
   (getRank a = Two \<and> getRank b = Ace \<longrightarrow> card_gt a b) \<and>
   (getRank a = Ace \<and> getRank b = King \<longrightarrow> card_gt a b) \<and>
   (getRank a = Two \<and> getRank b = King \<longrightarrow> card_gt a b)"
proof -
  have tri: "(card_lt a b \<and> \<not> card_eq a b \<and> \<not> card_gt a b) \<or>
    (\<not> card_lt a b \<and> card_eq a b \<and> \<not> card_gt a b) \<or>
    (\<not> card_lt a b \<and> \<not> card_eq a b \<and> card_gt a b)"
    using card_lt_total [of a b] card_lt_asym [of a b] card_lt_asym [of b a]
      card_lt_irrefl [of a]
    by (auto simp: card_gt_def card_eq_iff)
  have tr: "card_lt a b \<and> card_lt b c \<longrightarrow> card_lt a c"
    using card_lt_trans by blast
  have le: "card_le a b \<longleftrightarrow> card_lt a b \<or> card_eq a b"
    using tri by (auto simp: card_le_def card_gt_def)
  have ge: "card_ge a b \<longleftrightarrow> card_gt a b \<or> card_eq a b"
    using tri by (auto simp: card_ge_def card_gt_def)
  have top: "(getRank a = Two \<and> getRank b = Ace \<longrightarrow> card_gt a b) \<and>
    (getRank a = Ace \<and> getRank b = King \<longrightarrow> card_gt a b) \<and>
    (getRank a = Two \<and> getRank b = King \<longrightarrow> card_gt a b)"
    by (simp add: card_gt_def card_lt_def)
  show ?thesis
    using tri tr le ge top card_lt_irrefl [of a] card_eq_iff [of a b] card_lt_iff [of a b]
    by (simp add: card_ne_def)
qed

theorem card_order_strict_total_witness:
  "card_lt \<lparr>getRank = King, getSuit = Spades\<rparr> \<lparr>getRank = Ace, getSuit = Diamonds\<rparr> \<and>
   card_lt \<lparr>getRank = Ace, getSuit = Diamonds\<rparr> \<lparr>getRank = Two, getSuit = Diamonds\<rparr> \<and>
   card_lt \<lparr>getRank = King, getSuit = Spades\<rparr> \<lparr>getRank = Two, getSuit = Diamonds\<rparr> \<and>
   card_gt \<lparr>getRank = Ace, getSuit = Diamonds\<rparr> \<lparr>getRank = King, getSuit = Spades\<rparr>"
  using card_order_strict_total
    [of "\<lparr>getRank = King, getSuit = Spades\<rparr>" "\<lparr>getRank = Ace, getSuit = Diamonds\<rparr>"
        "\<lparr>getRank = Two, getSuit = Diamonds\<rparr>"]
    card_order_strict_total
    [of "\<lparr>getRank = Ace, getSuit = Diamonds\<rparr>" "\<lparr>getRank = King, getSuit = Spades\<rparr>"]
  by (simp add: card_lt_def card_gt_def)

section \<open>The highest card of a play\<close>

lemma highestFrom_mem: "highestFrom h cs \<in> set (h # cs)"
  by (induction cs arbitrary: h) (auto split: if_splits)

lemma card_le_trans: "\<not> card_lt b a \<Longrightarrow> \<not> card_lt c b \<Longrightarrow> \<not> card_lt c a"
  using card_lt_total [of a b] card_lt_total [of b c] card_lt_trans [of a b c]
    card_lt_asym [of a c]
  by auto

lemma highestFrom_ge_start: "\<not> card_lt (highestFrom h cs) h"
proof (induction cs arbitrary: h)
  case Nil
  then show ?case by (simp add: card_lt_irrefl)
next
  case (Cons c cs)
  show ?case
  proof (cases "card_gt c h")
    case True
    then have "\<not> card_lt c h" using card_lt_asym by (simp add: card_gt_def)
    then show ?thesis
      using Cons.IH [of c] True card_le_trans [of c h "highestFrom c cs"] by simp
  next
    case False
    then show ?thesis using Cons.IH [of h] by simp
  qed
qed

lemma highestFrom_ge: "x \<in> set (h # cs) \<Longrightarrow> \<not> card_lt (highestFrom h cs) x"
proof (induction cs arbitrary: h)
  case Nil
  then show ?case by (simp add: card_lt_irrefl)
next
  case (Cons c cs)
  let ?h' = "if card_gt c h then c else h"
  have step: "highestFrom h (c # cs) = highestFrom ?h' cs" by simp
  from Cons.prems consider "x = h" | "x = c" | "x \<in> set cs" by auto
  then show ?case
  proof cases
    case 1
    have "\<not> card_lt ?h' h"
      using card_lt_asym by (auto simp: card_gt_def card_lt_irrefl)
    then show ?thesis
      unfolding step 1 using highestFrom_ge_start [of ?h' cs] card_le_trans by blast
  next
    case 2
    have "\<not> card_lt ?h' c"
      by (auto simp: card_gt_def card_lt_irrefl)
    then show ?thesis
      unfolding step 2 using highestFrom_ge_start [of ?h' cs] card_le_trans by blast
  next
    case 3
    then show ?thesis unfolding step using Cons.IH [of ?h'] by simp
  qed
qed

lemma getHighestCard_max:
  "cards \<noteq> [] \<Longrightarrow>
   \<exists>h. getHighestCard cards = Inr h \<and> h \<in> set cards \<and> (\<forall>c\<in>set cards. card_le c h)"
  using highestFrom_mem highestFrom_ge
  by (cases cards) (auto simp: getHighestCard_def card_le_def simp del: highestFrom.simps)

lemma maximum_unique:
  "h \<in> S \<Longrightarrow> h' \<in> S \<Longrightarrow> \<forall>c\<in>S. card_le c h \<Longrightarrow> \<forall>c\<in>S. card_le c h' \<Longrightarrow> h = h'"
  using card_lt_total [of h h'] by (auto simp: card_le_def)

lemma getHighestCard_error_iff: "(\<exists>e. getHighestCard cards = Inl e) \<longleftrightarrow> cards = []"
  by (cases cards) (simp_all add: getHighestCard_def)

lemma pairBeats_alt:
  "pairBeats newPair lastPair =
     (if length newPair \<noteq> 2 \<or> length lastPair \<noteq> 2 then Inr False
      else compareHighest newPair lastPair)"
  by (simp add: pairBeats_def compareHighest_def)

lemma tripleBeats_alt:
  "tripleBeats newTriple lastTriple =
     (if length newTriple \<noteq> 3 \<or> length lastTriple \<noteq> 3 then Inr False
      else compareHighest newTriple lastTriple)"
  by (simp add: tripleBeats_def compareHighest_def)

lemma fiveCardBeats_alt:
  "fiveCardBeats newCards lastCards =
     (if getFiveCardRank (determineFiveCardType newCards) >
         getFiveCardRank (determineFiveCardType lastCards) then Inr True
      else if getFiveCardRank (determineFiveCardType newCards) <
         getFiveCardRank (determineFiveCardType lastCards) then Inr False
      else compareHighest newCards lastCards)"
  by (simp add: fiveCardBeats_def compareHighest_def Let_def)

lemma compareHighest_total:
  "newCards \<noteq> [] \<Longrightarrow> lastCards \<noteq> [] \<Longrightarrow> \<exists>b. compareHighest newCards lastCards = Inr b"
  by (cases newCards; cases lastCards) (simp_all add: compareHighest_def getHighestCard_def)

section \<open>The classifier on one, two and three cards\<close>

text \<open>
  Claim C6. \<^verbatim>\<open>determinePlayType\<close> on the small sizes: one card is a Single; two cards
  are a Pair exactly when their ranks are equal and Invalid otherwise; three cards are a
  Triple exactly when all three ranks are equal and Invalid otherwise; a play whose size
  is not 1, 2, 3 or 5 is Invalid.
\<close>

theorem determinePlayType_small_sizes:
  "(length cards = 1 \<longrightarrow> determinePlayType cards = Single) \<and>
   (length cards = 2 \<longrightarrow>
      determinePlayType cards =
        (if getRank (cards ! 0) = getRank (cards ! 1) then Pair_t else Invalid)) \<and>
   (length cards = 3 \<longrightarrow>
      determinePlayType cards =
        (if getRank (cards ! 0) = getRank (cards ! 1) \<and> getRank (cards ! 1) = getRank (cards ! 2)
         then Triple else Invalid)) \<and>
   (length cards \<notin> {1, 2, 3, 5} \<longrightarrow> determinePlayType cards = Invalid)"
  by (simp add: determinePlayType_def isPair_def isTriple_def)

theorem determinePlayType_small_sizes_witness:
  "determinePlayType [\<lparr>getRank = Nine, getSuit = Hearts\<rparr>] = Single \<and>
   determinePlayType
     [\<lparr>getRank = Nine, getSuit = Hearts\<rparr>, \<lparr>getRank = Nine, getSuit = Clubs\<rparr>] = Pair_t \<and>
   determinePlayType
     [\<lparr>getRank = Nine, getSuit = Hearts\<rparr>, \<lparr>getRank = Ten, getSuit = Clubs\<rparr>] = Invalid \<and>
   determinePlayType
     [\<lparr>getRank = Nine, getSuit = Hearts\<rparr>, \<lparr>getRank = Nine, getSuit = Clubs\<rparr>,
      \<lparr>getRank = Nine, getSuit = Spades\<rparr>] = Triple \<and>
   determinePlayType
     [\<lparr>getRank = Nine, getSuit = Hearts\<rparr>, \<lparr>getRank = Nine, getSuit = Clubs\<rparr>,
      \<lparr>getRank = Nine, getSuit = Spades\<rparr>, \<lparr>getRank = Nine, getSuit = Diamonds\<rparr>] = Invalid"
  using determinePlayType_small_sizes [of "[\<lparr>getRank = Nine, getSuit = Hearts\<rparr>]"]
    determinePlayType_small_sizes
      [of "[\<lparr>getRank = Nine, getSuit = Hearts\<rparr>, \<lparr>getRank = Nine, getSuit = Clubs\<rparr>]"]
    determinePlayType_small_sizes
      [of "[\<lparr>getRank = Nine, getSuit = Hearts\<rparr>, \<lparr>getRank = Ten, getSuit = Clubs\<rparr>]"]
    determinePlayType_small_sizes
      [of "[\<lparr>getRank = Nine, getSuit = Hearts\<rparr>, \<lparr>getRank = Nine, getSuit = Clubs\<rparr>,
            \<lparr>getRank = Nine, getSuit = Spades\<rparr>]"]
    determinePlayType_small_sizes
      [of "[\<lparr>getRank = Nine, getSuit = Hearts\<rparr>, \<lparr>getRank = Nine, getSuit = Clubs\<rparr>,
            \<lparr>getRank = Nine, getSuit = Spades\<rparr>, \<lparr>getRank = Nine, getSuit = Diamonds\<rparr>]"]
  by simp

section \<open>The comparator on plays of different sizes\<close>

text \<open>
  Claim C7, as written: for plays of different sizes, the empty last play included,
  \<^verbatim>\<open>doesPlayBeat\<close> returns false. The code tests first whether the last play is empty
  and returns true there (its comment: any play beats an empty play); the sizes are
  compared only afterwards. So the claim fails at a one-card play against the empty last
  play.
\<close>

theorem doesPlayBeat_empty_last_counterexample:
  "length [\<lparr>getRank = Three, getSuit = Diamonds\<rparr>] \<noteq> length ([] :: Card list) \<and>
   doesPlayBeat [\<lparr>getRank = Three, getSuit = Diamonds\<rparr>] [] \<noteq> Inr False"
  by (simp add: doesPlayBeat_def)

text \<open>
  Claim C7, amended. For plays of different sizes \<^verbatim>\<open>doesPlayBeat\<close> returns false when
  the last play is not empty, and true when the last play is empty.
\<close>

theorem doesPlayBeat_size_mismatch:
  "length newPlay \<noteq> length lastPlay \<Longrightarrow> doesPlayBeat newPlay lastPlay = Inr (lastPlay = [])"
  by (simp add: doesPlayBeat_def)

theorem doesPlayBeat_size_mismatch_witness:
  "length [\<lparr>getRank = Two, getSuit = Spades\<rparr>, \<lparr>getRank = Two, getSuit = Hearts\<rparr>] \<noteq>
     length [\<lparr>getRank = Three, getSuit = Diamonds\<rparr>] \<and>
   doesPlayBeat [\<lparr>getRank = Two, getSuit = Spades\<rparr>, \<lparr>getRank = Two, getSuit = Hearts\<rparr>]
     [\<lparr>getRank = Three, getSuit = Diamonds\<rparr>] = Inr False"
  using doesPlayBeat_size_mismatch
    [of "[\<lparr>getRank = Two, getSuit = Spades\<rparr>, \<lparr>getRank = Two, getSuit = Hearts\<rparr>]"
        "[\<lparr>getRank = Three, getSuit = Diamonds\<rparr>]"]
  by simp

section \<open>The validator\<close>

lemma containsThreeOfDiamonds_iff:
  "containsThreeOfDiamonds cards \<longleftrightarrow> threeOfDiamonds \<in> set cards"
  by (auto simp: containsThreeOfDiamonds_def list_ex_iff card_eq_iff)

lemma doesPlayBeat_total: "\<exists>b. doesPlayBeat newPlay lastPlay = Inr b"
proof (cases "lastPlay = [] \<or> length newPlay \<noteq> length lastPlay")
  case True
  then show ?thesis by (auto simp: doesPlayBeat_def)
next
  case False
  then have ne: "newPlay \<noteq> []" "lastPlay \<noteq> []" by auto
  show ?thesis
    using False compareHighest_total [OF ne]
    by (cases "determinePlayType newPlay")
       (auto simp: doesPlayBeat_def pairBeats_alt tripleBeats_alt fiveCardBeats_alt Let_def)
qed

text \<open>
  Claim C9. \<^verbatim>\<open>validatePlay\<close> returns a verdict on every input and no exception leaves
  it; a rejecting verdict carries a non-empty message and an accepting one the empty
  message. The comparator \<^verbatim>\<open>doesPlayBeat\<close> returns on every input as well. The
  \<^verbatim>\<open>throw\<close> of \<^verbatim>\<open>getHighestCard\<close> is taken exactly on the empty vector; on a
  non-empty play and a last play of the same size, which is where the validator calls
  the comparator, \<^verbatim>\<open>getHighestCard\<close> returns a card for both, so the \<^verbatim>\<open>throw\<close> is
  never reached from the validator.
\<close>

theorem validatePlay_total:
  "(\<exists>v. validatePlay cards lastPlay isFirstPlay mustInclude = Inr v \<and>
        (isValid v \<longrightarrow> errorMessage v = '''') \<and>
        (\<not> isValid v \<longrightarrow> errorMessage v \<noteq> '''')) \<and>
   (\<exists>b. doesPlayBeat cards lastPlay = Inr b) \<and>
   (\<forall>xs. (\<exists>e. getHighestCard xs = Inl e) \<longleftrightarrow> xs = []) \<and>
   (cards \<noteq> [] \<and> length cards = length lastPlay \<longrightarrow>
      (\<exists>newHigh lastHigh.
         getHighestCard cards = Inr newHigh \<and> getHighestCard lastPlay = Inr lastHigh))"
proof -
  obtain b where b: "doesPlayBeat cards lastPlay = Inr b"
    using doesPlayBeat_total by blast
  have "\<exists>v. validatePlay cards lastPlay isFirstPlay mustInclude = Inr v \<and>
        (isValid v \<longrightarrow> errorMessage v = '''') \<and>
        (\<not> isValid v \<longrightarrow> errorMessage v \<noteq> '''')"
    by (simp add: validatePlay_def PlayValidation_init_def Let_def b)
  moreover have "cards \<noteq> [] \<and> length cards = length lastPlay \<longrightarrow>
      (\<exists>newHigh lastHigh.
         getHighestCard cards = Inr newHigh \<and> getHighestCard lastPlay = Inr lastHigh)"
    by (cases cards; cases lastPlay) (simp_all add: getHighestCard_def)
  ultimately show ?thesis
    using b getHighestCard_error_iff by blast
qed

theorem validatePlay_total_witness:
  "\<exists>v. validatePlay [\<lparr>getRank = Two, getSuit = Spades\<rparr>, \<lparr>getRank = Two, getSuit = Hearts\<rparr>]
          [\<lparr>getRank = Three, getSuit = Spades\<rparr>] False False = Inr v \<and>
        \<not> isValid v \<and> errorMessage v \<noteq> ''''"
proof -
  have "validatePlay [\<lparr>getRank = Two, getSuit = Spades\<rparr>, \<lparr>getRank = Two, getSuit = Hearts\<rparr>]
          [\<lparr>getRank = Three, getSuit = Spades\<rparr>] False False =
        Inr \<lparr>isValid = False, playType = Pair_t, fiveCardType = None_t,
             errorMessage = ''Must play same number of cards as last play''\<rparr>"
    by (simp add: validatePlay_def PlayValidation_init_def Let_def determinePlayType_def
        isPair_def)
  then show ?thesis
    using validatePlay_total
      [of "[\<lparr>getRank = Two, getSuit = Spades\<rparr>, \<lparr>getRank = Two, getSuit = Hearts\<rparr>]"
          "[\<lparr>getRank = Three, getSuit = Spades\<rparr>]" False False]
    by auto
qed

text \<open>
  Claim C1. \<^verbatim>\<open>validatePlay\<close> accepts exactly when the play is not empty, contains the
  3 of Diamonds (the card of rank Three and suit Diamonds) if that card is required,
  classifies to a shape other than Invalid (and, for a five-card shape, to a sub-shape
  other than None), and either this is the first play or the last play is empty, or the
  play has the size of the last play and beats it. The checks run in this order: the
  message of the verdict is the message of the first check that fails. When this is the
  first play or the last play is empty the verdict does not depend on the cards of the
  last play: nothing is compared. An accepting verdict carries the shape and the
  sub-shape of the play.
\<close>

theorem validatePlay_accepts_iff:
  "\<exists>v. validatePlay cards lastPlay isFirstPlay mustInclude = Inr v \<and>
     (isValid v \<longleftrightarrow>
        cards \<noteq> [] \<and>
        (mustInclude \<longrightarrow> \<lparr>getRank = Three, getSuit = Diamonds\<rparr> \<in> set cards) \<and>
        determinePlayType cards \<noteq> Invalid \<and>
        (determinePlayType cards = FiveCard \<longrightarrow> determineFiveCardType cards \<noteq> None_t) \<and>
        ((isFirstPlay \<or> lastPlay = []) \<or>
         (length cards = length lastPlay \<and> doesPlayBeat cards lastPlay = Inr True))) \<and>
     errorMessage v =
       (if cards = [] then ''No cards selected''
        else if mustInclude \<and> \<lparr>getRank = Three, getSuit = Diamonds\<rparr> \<notin> set cards
          then ''First play must include 3 of Diamonds''
        else if determinePlayType cards = Invalid then ''Invalid card combination''
        else if determinePlayType cards = FiveCard \<and> determineFiveCardType cards = None_t
          then ''Invalid five-card combination''
        else if isFirstPlay \<or> lastPlay = [] then ''''
        else if length cards \<noteq> length lastPlay
          then ''Must play same number of cards as last play''
        else if doesPlayBeat cards lastPlay \<noteq> Inr True
          then ''Play does not beat the previous play''
        else '''') \<and>
     (isValid v \<longrightarrow>
        playType v = determinePlayType cards \<and>
        fiveCardType v =
          (if determinePlayType cards = FiveCard then determineFiveCardType cards
           else None_t)) \<and>
     (isFirstPlay \<or> lastPlay = [] \<longrightarrow>
        (\<forall>other. validatePlay cards other True mustInclude = Inr v))"
proof -
  obtain b where b: "doesPlayBeat cards lastPlay = Inr b"
    using doesPlayBeat_total by blast
  show ?thesis
    by (simp add: validatePlay_def PlayValidation_init_def Let_def b
        containsThreeOfDiamonds_iff threeOfDiamonds_def)
qed

theorem validatePlay_accepts_iff_witness:
  "(\<exists>v. validatePlay [\<lparr>getRank = Three, getSuit = Diamonds\<rparr>] [] True True = Inr v \<and>
        isValid v \<and> playType v = Single \<and> errorMessage v = '''') \<and>
   (\<exists>v. validatePlay [\<lparr>getRank = Two, getSuit = Spades\<rparr>] [] True True = Inr v \<and>
        \<not> isValid v \<and> errorMessage v = ''First play must include 3 of Diamonds'') \<and>
   (\<exists>v. validatePlay
          [\<lparr>getRank = Four, getSuit = Diamonds\<rparr>, \<lparr>getRank = Four, getSuit = Clubs\<rparr>]
          [\<lparr>getRank = Three, getSuit = Spades\<rparr>, \<lparr>getRank = Three, getSuit = Hearts\<rparr>]
          False False = Inr v \<and> isValid v \<and> playType v = Pair_t \<and> errorMessage v = '''')"
proof -
  have single: "determinePlayType [\<lparr>getRank = Three, getSuit = Diamonds\<rparr>] = Single"
    by (simp add: determinePlayType_def)
  have single2: "determinePlayType [\<lparr>getRank = Two, getSuit = Spades\<rparr>] = Single"
    by (simp add: determinePlayType_def)
  have a: "\<exists>v. validatePlay [\<lparr>getRank = Three, getSuit = Diamonds\<rparr>] [] True True = Inr v \<and>
        isValid v \<and> playType v = Single \<and> errorMessage v = ''''"
    using validatePlay_accepts_iff [of "[\<lparr>getRank = Three, getSuit = Diamonds\<rparr>]" "[]" True True]
    by (auto simp: single)
  have r: "\<exists>v. validatePlay [\<lparr>getRank = Two, getSuit = Spades\<rparr>] [] True True = Inr v \<and>
        \<not> isValid v \<and> errorMessage v = ''First play must include 3 of Diamonds''"
    using validatePlay_accepts_iff [of "[\<lparr>getRank = Two, getSuit = Spades\<rparr>]" "[]" True True]
    by (auto simp: single2)
  have beats: "doesPlayBeat
          [\<lparr>getRank = Four, getSuit = Diamonds\<rparr>, \<lparr>getRank = Four, getSuit = Clubs\<rparr>]
          [\<lparr>getRank = Three, getSuit = Spades\<rparr>, \<lparr>getRank = Three, getSuit = Hearts\<rparr>]
        = Inr True"
    by (simp add: doesPlayBeat_def determinePlayType_def isPair_def pairBeats_alt
        compareHighest_def getHighestCard_def card_gt_def card_lt_def)
  have shape: "determinePlayType
          [\<lparr>getRank = Four, getSuit = Diamonds\<rparr>, \<lparr>getRank = Four, getSuit = Clubs\<rparr>] = Pair_t"
    by (simp add: determinePlayType_def isPair_def)
  have b: "\<exists>v. validatePlay
          [\<lparr>getRank = Four, getSuit = Diamonds\<rparr>, \<lparr>getRank = Four, getSuit = Clubs\<rparr>]
          [\<lparr>getRank = Three, getSuit = Spades\<rparr>, \<lparr>getRank = Three, getSuit = Hearts\<rparr>]
          False False = Inr v \<and> isValid v \<and> playType v = Pair_t \<and> errorMessage v = ''''"
    using validatePlay_accepts_iff
      [of "[\<lparr>getRank = Four, getSuit = Diamonds\<rparr>, \<lparr>getRank = Four, getSuit = Clubs\<rparr>]"
          "[\<lparr>getRank = Three, getSuit = Spades\<rparr>, \<lparr>getRank = Three, getSuit = Hearts\<rparr>]"
          False False]
    by (auto simp: beats shape)
  show ?thesis using a r b by blast
qed

section \<open>Sorting by rank\<close>

lemma sortByRank_mset: "mset (sortByRank cards) = mset cards"
  by (simp add: sortByRank_def)

lemma sortByRank_length: "length (sortByRank cards) = length cards"
  by (simp add: sortByRank_def)

lemma sortByRank_set: "set (sortByRank cards) = set cards"
  by (simp add: sortByRank_def)

lemma sortByRank_sorted: "sorted (map (\<lambda>c. rank_val (getRank c)) (sortByRank cards))"
  by (simp add: sortByRank_def)

lemma sort_mset_cong: "mset xs = mset ys \<Longrightarrow> sort xs = sort ys"
  by (metis properties_for_sort sorted_sort mset_sort)

lemma sortByRank_rank_vals:
  "map (\<lambda>c. rank_val (getRank c)) (sortByRank cards) = sort (map (\<lambda>c. rank_val (getRank c)) cards)"
proof -
  have "mset (map (\<lambda>c. rank_val (getRank c)) (sortByRank cards)) =
        mset (map (\<lambda>c. rank_val (getRank c)) cards)"
    by (simp add: sortByRank_mset)
  then show ?thesis
    using properties_for_sort [OF _ sortByRank_sorted] by metis
qed

lemma inj_rank_val: "inj rank_val"
  by (simp add: inj_def rank_val_inj)

lemma sortByRank_ranks_unique:
  assumes "mset ys = mset cards" and "sorted (map (\<lambda>c. rank_val (getRank c)) ys)"
  shows "map getRank ys = map getRank (sortByRank cards)"
proof -
  have "mset (map (\<lambda>c. rank_val (getRank c)) ys) = mset (map (\<lambda>c. rank_val (getRank c)) cards)"
    using assms(1) by simp
  then have "sort (map (\<lambda>c. rank_val (getRank c)) cards) = map (\<lambda>c. rank_val (getRank c)) ys"
    using properties_for_sort assms(2) by blast
  then have "map rank_val (map getRank ys) = map rank_val (map getRank (sortByRank cards))"
    using sortByRank_rank_vals [of cards] by (simp add: comp_def)
  then show ?thesis
    using inj_map_eq_map [OF inj_rank_val] by blast
qed

lemma sortByRank_ranks_perm:
  "mset xs = mset ys \<Longrightarrow> map getRank (sortByRank xs) = map getRank (sortByRank ys)"
  using sortByRank_ranks_unique [of "sortByRank xs" ys] sortByRank_mset [of xs]
    sortByRank_sorted [of xs]
  by simp

lemma consecutiveRanks_iff:
  "consecutiveRanks xs \<longleftrightarrow>
     (\<forall>i. Suc i < length xs \<longrightarrow>
        rank_val (getRank (xs ! Suc i)) = rank_val (getRank (xs ! i)) + 1)"
proof (induction xs rule: consecutiveRanks.induct)
  case (1 p c rest)
  have "(\<forall>i. Suc i < length (p # c # rest) \<longrightarrow>
           rank_val (getRank ((p # c # rest) ! Suc i)) = rank_val (getRank ((p # c # rest) ! i)) + 1)
        \<longleftrightarrow> rank_val (getRank c) = rank_val (getRank p) + 1 \<and>
            (\<forall>i. Suc i < length (c # rest) \<longrightarrow>
               rank_val (getRank ((c # rest) ! Suc i)) = rank_val (getRank ((c # rest) ! i)) + 1)"
    (is "?L \<longleftrightarrow> ?A \<and> ?R")
  proof
    assume l: ?L
    have ?A using l [rule_format, of 0] by simp
    moreover have ?R
    proof (intro allI impI)
      fix i assume "Suc i < length (c # rest)"
      then show "rank_val (getRank ((c # rest) ! Suc i)) = rank_val (getRank ((c # rest) ! i)) + 1"
        using l [rule_format, of "Suc i"] by simp
    qed
    ultimately show "?A \<and> ?R" ..
  next
    assume ar: "?A \<and> ?R"
    show ?L
    proof (intro allI impI)
      fix i assume i: "Suc i < length (p # c # rest)"
      show "rank_val (getRank ((p # c # rest) ! Suc i)) = rank_val (getRank ((p # c # rest) ! i)) + 1"
      proof (cases i)
        case 0
        then show ?thesis using ar by simp
      next
        case (Suc j)
        then show ?thesis using ar [THEN conjunct2, rule_format, of j] i by simp
      qed
    qed
  qed
  then show ?case using 1 by (simp add: Let_def)
qed simp_all

lemma isStraight_iff:
  "isStraight cards \<longleftrightarrow>
     length cards = 5 \<and>
     (\<forall>i. Suc i < 5 \<longrightarrow>
        rank_val (getRank (sortByRank cards ! Suc i)) =
        rank_val (getRank (sortByRank cards ! i)) + 1)"
  by (simp add: isStraight_def consecutiveRanks_iff sortByRank_length Let_def)

lemma list5:
  assumes "length xs = 5"
  obtains a b c d e where "xs = [a, b, c, d, e]"
proof -
  from assms obtain a t1 where 1: "xs = a # t1" "length t1 = 4" by (cases xs) auto
  then obtain b t2 where 2: "t1 = b # t2" "length t2 = 3" by (cases t1) auto
  then obtain c t3 where 3: "t2 = c # t3" "length t3 = 2" by (cases t2) auto
  then obtain d t4 where 4: "t3 = d # t4" "length t4 = 1" by (cases t3) auto
  then obtain e where 5: "t4 = [e]" by (cases t4) auto
  show ?thesis using that 1 2 3 4 5 by simp
qed

lemma isStraight_not_groups:
  assumes "isStraight cards"
  shows "\<not> isFourOfAKind cards" and "\<not> isFullHouse cards"
proof -
  let ?s = "sortByRank cards"
  from assms have len: "length cards = 5"
    and st: "\<forall>i. Suc i < 5 \<longrightarrow>
        rank_val (getRank (?s ! Suc i)) = rank_val (getRank (?s ! i)) + 1"
    by (simp_all add: isStraight_iff)
  have "rank_val (getRank (?s ! 1)) = rank_val (getRank (?s ! 0)) + 1"
    using st [rule_format, of 0] by simp
  then have n01: "getRank (?s ! 0) \<noteq> getRank (?s ! 1)" by auto
  have "rank_val (getRank (?s ! 2)) = rank_val (getRank (?s ! 1)) + 1"
    using st [rule_format, of 1] by (simp add: numeral_2_eq_2)
  then have n12: "getRank (?s ! 1) \<noteq> getRank (?s ! 2)" by auto
  show "\<not> isFourOfAKind cards" using n12 by (simp add: isFourOfAKind_def Let_def)
  show "\<not> isFullHouse cards" using n01 by (simp add: isFullHouse_def Let_def)
qed

section \<open>Flushes and groups of equal rank\<close>

lemma allOfSuit_iff: "allOfSuit s cs \<longleftrightarrow> (\<forall>c\<in>set cs. getSuit c = s)"
  by (induction cs) auto

lemma isFlush_iff:
  "isFlush cards \<longleftrightarrow> length cards = 5 \<and> (\<forall>a\<in>set cards. \<forall>b\<in>set cards. getSuit a = getSuit b)"
proof (cases "length cards = 5")
  case True
  then obtain a b c d e where cs: "cards = [a, b, c, d, e]" by (rule list5)
  have a: "a \<in> set cards" by (simp add: cs)
  have "isFlush cards \<longleftrightarrow> (\<forall>c\<in>set cards. getSuit c = getSuit a)"
    by (simp add: isFlush_def allOfSuit_iff cs Let_def)
  also have "\<dots> \<longleftrightarrow> (\<forall>x\<in>set cards. \<forall>y\<in>set cards. getSuit x = getSuit y)"
  proof
    assume "\<forall>c\<in>set cards. getSuit c = getSuit a"
    then show "\<forall>x\<in>set cards. \<forall>y\<in>set cards. getSuit x = getSuit y" by simp
  next
    assume "\<forall>x\<in>set cards. \<forall>y\<in>set cards. getSuit x = getSuit y"
    then show "\<forall>c\<in>set cards. getSuit c = getSuit a" using a by blast
  qed
  finally show ?thesis using True by simp
next
  case False
  then show ?thesis by (simp add: isFlush_def)
qed

lemma card_eqI: "getRank a = getRank b \<Longrightarrow> getSuit a = getSuit b \<Longrightarrow> (a::Card) = b"
  by simp

lemma sortByRank_distinct: "distinct (sortByRank cards) \<longleftrightarrow> distinct cards"
  by (simp add: sortByRank_def)

lemma isFlush_distinct_not_groups:
  assumes "isFlush cards" and "distinct cards"
  shows "\<not> isFourOfAKind cards" and "\<not> isFullHouse cards"
proof -
  let ?s = "sortByRank cards"
  from assms(1) have len: "length cards = 5"
    using isFlush_iff by blast
  from assms(1) have su: "\<forall>a\<in>set cards. \<forall>b\<in>set cards. getSuit a = getSuit b"
    using isFlush_iff by blast
  have slen: "length ?s = 5" using len by (simp only: sortByRank_length)
  have sdist: "distinct ?s"
    using assms(2) by (simp only: sortByRank_distinct)
  have mem: "\<And>i. i < 5 \<Longrightarrow> ?s ! i \<in> set cards"
  proof -
    fix i :: nat assume "i < 5"
    then have "?s ! i \<in> set ?s" using slen by (intro nth_mem) simp
    then show "?s ! i \<in> set cards" by (simp only: sortByRank_set)
  qed
  have ne: "\<And>i j. i < 5 \<Longrightarrow> j < 5 \<Longrightarrow> i \<noteq> j \<Longrightarrow> getRank (?s ! i) \<noteq> getRank (?s ! j)"
  proof
    fix i j :: nat assume ij: "i < 5" "j < 5" "i \<noteq> j"
      and r: "getRank (?s ! i) = getRank (?s ! j)"
    have "getSuit (?s ! i) = getSuit (?s ! j)" using su mem [OF ij(1)] mem [OF ij(2)] by blast
    with r have "?s ! i = ?s ! j" by (intro card_eqI)
    moreover have "i < length ?s" "j < length ?s" using ij slen by simp_all
    ultimately show False using sdist ij(3) nth_eq_iff_index_eq by blast
  qed
  have n12: "getRank (?s ! 1) \<noteq> getRank (?s ! 2)" by (rule ne) simp_all
  have n01: "getRank (?s ! 0) \<noteq> getRank (?s ! 1)" by (rule ne) simp_all
  show "\<not> isFourOfAKind cards" using n12 by (simp add: isFourOfAKind_def Let_def)
  show "\<not> isFullHouse cards" using n01 by (simp add: isFullHouse_def Let_def)
qed

lemma UNIV_Suit: "(UNIV :: Suit set) = {Diamonds, Clubs, Hearts, Spades}"
  using Suit.exhaust by auto

lemma card_UNIV_Suit: "card (UNIV :: Suit set) = 4"
  unfolding UNIV_Suit by simp

lemma finite_UNIV_Suit: "finite (UNIV :: Suit set)"
  unfolding UNIV_Suit by simp

lemma five_of_one_rank_not_distinct:
  assumes "length s = 5" and "\<forall>a\<in>set s. getRank a = r"
  shows "\<not> distinct (s :: Card list)"
proof
  assume d: "distinct s"
  have "inj_on getSuit (set s)"
  proof (rule inj_onI)
    fix a b assume "a \<in> set s" "b \<in> set s" "getSuit a = getSuit b"
    moreover from this assms(2) have "getRank a = getRank b" by simp
    ultimately show "a = b" by (intro card_eqI)
  qed
  then have "card (getSuit ` set s) = card (set s)" by (rule card_image)
  also have "\<dots> = 5" using d assms(1) by (simp add: distinct_card)
  finally have "card (getSuit ` set s) = 5" .
  moreover have "card (getSuit ` set s) \<le> card (UNIV :: Suit set)"
    by (rule card_mono) (simp_all add: finite_UNIV_Suit)
  ultimately show False by (simp add: card_UNIV_Suit)
qed

lemma fullHouse_fourOfAKind_exclusive:
  assumes "distinct cards" and "isFullHouse cards"
  shows "\<not> isFourOfAKind cards"
proof
  assume f: "isFourOfAKind cards"
  let ?s = "sortByRank cards"
  from f have len: "length cards = 5" by (simp add: isFourOfAKind_def split: if_splits)
  then have slen: "length ?s = 5" by (simp only: sortByRank_length)
  then obtain a b c d e where s: "?s = [a, b, c, d, e]" by (rule list5)
  have four: "(getRank a = getRank b \<and> getRank b = getRank c \<and> getRank c = getRank d) \<or>
              (getRank b = getRank c \<and> getRank c = getRank d \<and> getRank d = getRank e)"
    using f len by (simp add: isFourOfAKind_def Let_def s)
  have full: "(getRank a = getRank b \<and> getRank b = getRank c \<and> getRank d = getRank e) \<or>
              (getRank a = getRank b \<and> getRank c = getRank d \<and> getRank d = getRank e)"
    using assms(2) len by (simp add: isFullHouse_def Let_def s)
  have "getRank b = getRank a \<and> getRank c = getRank a \<and> getRank d = getRank a \<and>
        getRank e = getRank a"
    using four full by metis
  then have "\<forall>x\<in>set ?s. getRank x = getRank a" by (simp add: s)
  then have "\<not> distinct ?s" using slen five_of_one_rank_not_distinct by blast
  then show False using assms(1) by (simp add: sortByRank_distinct)
qed

section \<open>Comparing five-card plays\<close>

lemma getFiveCardRank_inj: "getFiveCardRank s = getFiveCardRank t \<longleftrightarrow> s = t"
  by (cases s; cases t; simp add: getFiveCardRank_def)

lemma fullHouse_example: "determineFiveCardType
     [\<lparr>getRank = Two, getSuit = Spades\<rparr>, \<lparr>getRank = Ace, getSuit = Spades\<rparr>,
      \<lparr>getRank = Two, getSuit = Hearts\<rparr>, \<lparr>getRank = Ace, getSuit = Hearts\<rparr>,
      \<lparr>getRank = Two, getSuit = Clubs\<rparr>] = FullHouse"
  by (simp add: determineFiveCardType_def isStraightFlush_def isStraight_def isFlush_def
      isFourOfAKind_def isFullHouse_def sortByRank_def Let_def)

lemma fourOfAKind_example: "determineFiveCardType
     [\<lparr>getRank = Three, getSuit = Spades\<rparr>, \<lparr>getRank = Four, getSuit = Diamonds\<rparr>,
      \<lparr>getRank = Three, getSuit = Hearts\<rparr>, \<lparr>getRank = Three, getSuit = Diamonds\<rparr>,
      \<lparr>getRank = Three, getSuit = Clubs\<rparr>] = FourOfAKind"
  by (simp add: determineFiveCardType_def isStraightFlush_def isStraight_def isFlush_def
      isFourOfAKind_def isFullHouse_def sortByRank_def Let_def)

text \<open>
  Claim C3. On two five-card plays \<^verbatim>\<open>fiveCardBeats\<close> first compares the sub-shapes on
  the table Straight 1, Flush 2, FullHouse 3, FourOfAKind 4, StraightFlush 5: the play
  with the higher entry beats the other whatever the cards are. On equal sub-shapes the
  play beats exactly when its highest card (the maximum of all five in the card order) is
  strictly greater; on the same highest card the answer is false. So a full house never
  beats a four of a kind. On a five-card play \<^verbatim>\<open>doesPlayBeat\<close> is this comparison.
\<close>

theorem fiveCardBeats_order:
  "(getFiveCardRank Straight = 1 \<and> getFiveCardRank Flush = 2 \<and> getFiveCardRank FullHouse = 3 \<and>
    getFiveCardRank FourOfAKind = 4 \<and> getFiveCardRank StraightFlush = 5) \<and>
   (length newCards = 5 \<and> length lastCards = 5 \<longrightarrow>
     (\<exists>newHigh lastHigh.
        getHighestCard newCards = Inr newHigh \<and> newHigh \<in> set newCards \<and>
        (\<forall>c\<in>set newCards. card_le c newHigh) \<and>
        getHighestCard lastCards = Inr lastHigh \<and> lastHigh \<in> set lastCards \<and>
        (\<forall>c\<in>set lastCards. card_le c lastHigh) \<and>
        (getFiveCardRank (determineFiveCardType newCards) >
           getFiveCardRank (determineFiveCardType lastCards) \<longrightarrow>
         fiveCardBeats newCards lastCards = Inr True) \<and>
        (getFiveCardRank (determineFiveCardType newCards) <
           getFiveCardRank (determineFiveCardType lastCards) \<longrightarrow>
         fiveCardBeats newCards lastCards = Inr False) \<and>
        (determineFiveCardType newCards = determineFiveCardType lastCards \<longrightarrow>
         fiveCardBeats newCards lastCards = Inr (card_gt newHigh lastHigh)) \<and>
        (determineFiveCardType newCards = determineFiveCardType lastCards \<and>
         newHigh = lastHigh \<longrightarrow>
         fiveCardBeats newCards lastCards = Inr False) \<and>
        (determineFiveCardType newCards = FullHouse \<and>
         determineFiveCardType lastCards = FourOfAKind \<longrightarrow>
         fiveCardBeats newCards lastCards = Inr False) \<and>
        (determinePlayType newCards = FiveCard \<longrightarrow>
         doesPlayBeat newCards lastCards = fiveCardBeats newCards lastCards)))"
proof -
  have table: "getFiveCardRank Straight = 1 \<and> getFiveCardRank Flush = 2 \<and>
    getFiveCardRank FullHouse = 3 \<and> getFiveCardRank FourOfAKind = 4 \<and>
    getFiveCardRank StraightFlush = 5"
    by (simp add: getFiveCardRank_def)
  have main: "\<exists>newHigh lastHigh.
        getHighestCard newCards = Inr newHigh \<and> newHigh \<in> set newCards \<and>
        (\<forall>c\<in>set newCards. card_le c newHigh) \<and>
        getHighestCard lastCards = Inr lastHigh \<and> lastHigh \<in> set lastCards \<and>
        (\<forall>c\<in>set lastCards. card_le c lastHigh) \<and>
        (getFiveCardRank (determineFiveCardType newCards) >
           getFiveCardRank (determineFiveCardType lastCards) \<longrightarrow>
         fiveCardBeats newCards lastCards = Inr True) \<and>
        (getFiveCardRank (determineFiveCardType newCards) <
           getFiveCardRank (determineFiveCardType lastCards) \<longrightarrow>
         fiveCardBeats newCards lastCards = Inr False) \<and>
        (determineFiveCardType newCards = determineFiveCardType lastCards \<longrightarrow>
         fiveCardBeats newCards lastCards = Inr (card_gt newHigh lastHigh)) \<and>
        (determineFiveCardType newCards = determineFiveCardType lastCards \<and>
         newHigh = lastHigh \<longrightarrow>
         fiveCardBeats newCards lastCards = Inr False) \<and>
        (determineFiveCardType newCards = FullHouse \<and>
         determineFiveCardType lastCards = FourOfAKind \<longrightarrow>
         fiveCardBeats newCards lastCards = Inr False) \<and>
        (determinePlayType newCards = FiveCard \<longrightarrow>
         doesPlayBeat newCards lastCards = fiveCardBeats newCards lastCards)"
    if len: "length newCards = 5" "length lastCards = 5"
  proof -
    from len have ne: "newCards \<noteq> []" "lastCards \<noteq> []" by auto
    obtain hn where hn: "getHighestCard newCards = Inr hn" "hn \<in> set newCards"
      "\<forall>c\<in>set newCards. card_le c hn"
      using getHighestCard_max [OF ne(1)] by blast
    obtain hl where hl: "getHighestCard lastCards = Inr hl" "hl \<in> set lastCards"
      "\<forall>c\<in>set lastCards. card_le c hl"
      using getHighestCard_max [OF ne(2)] by blast
    have cmp: "compareHighest newCards lastCards = Inr (card_gt hn hl)"
      by (simp add: compareHighest_def hn(1) hl(1))
    have gt: "getFiveCardRank (determineFiveCardType newCards) >
           getFiveCardRank (determineFiveCardType lastCards) \<longrightarrow>
         fiveCardBeats newCards lastCards = Inr True"
      by (simp add: fiveCardBeats_alt Let_def)
    have lt: "getFiveCardRank (determineFiveCardType newCards) <
           getFiveCardRank (determineFiveCardType lastCards) \<longrightarrow>
         fiveCardBeats newCards lastCards = Inr False"
      by (simp add: fiveCardBeats_alt Let_def)
    have eq: "determineFiveCardType newCards = determineFiveCardType lastCards \<longrightarrow>
         fiveCardBeats newCards lastCards = Inr (card_gt hn hl)"
      by (simp add: fiveCardBeats_alt Let_def cmp)
    have tie: "determineFiveCardType newCards = determineFiveCardType lastCards \<and> hn = hl \<longrightarrow>
         fiveCardBeats newCards lastCards = Inr False"
      using eq by (auto simp: card_gt_def card_lt_irrefl)
    have fh: "determineFiveCardType newCards = FullHouse \<and>
         determineFiveCardType lastCards = FourOfAKind \<longrightarrow>
         fiveCardBeats newCards lastCards = Inr False"
      by (simp add: fiveCardBeats_alt Let_def getFiveCardRank_def)
    have dp: "determinePlayType newCards = FiveCard \<longrightarrow>
         doesPlayBeat newCards lastCards = fiveCardBeats newCards lastCards"
      using ne len by (simp add: doesPlayBeat_def)
    show ?thesis
      using hn hl gt lt eq tie fh dp by blast
  qed
  show ?thesis using table main by blast
qed

theorem fiveCardBeats_order_witness:
  "length [\<lparr>getRank = Two, getSuit = Spades\<rparr>, \<lparr>getRank = Ace, getSuit = Spades\<rparr>,
      \<lparr>getRank = Two, getSuit = Hearts\<rparr>, \<lparr>getRank = Ace, getSuit = Hearts\<rparr>,
      \<lparr>getRank = Two, getSuit = Clubs\<rparr>] = 5 \<and>
   length [\<lparr>getRank = Three, getSuit = Spades\<rparr>, \<lparr>getRank = Four, getSuit = Diamonds\<rparr>,
      \<lparr>getRank = Three, getSuit = Hearts\<rparr>, \<lparr>getRank = Three, getSuit = Diamonds\<rparr>,
      \<lparr>getRank = Three, getSuit = Clubs\<rparr>] = 5 \<and>
   fiveCardBeats
     [\<lparr>getRank = Two, getSuit = Spades\<rparr>, \<lparr>getRank = Ace, getSuit = Spades\<rparr>,
      \<lparr>getRank = Two, getSuit = Hearts\<rparr>, \<lparr>getRank = Ace, getSuit = Hearts\<rparr>,
      \<lparr>getRank = Two, getSuit = Clubs\<rparr>]
     [\<lparr>getRank = Three, getSuit = Spades\<rparr>, \<lparr>getRank = Four, getSuit = Diamonds\<rparr>,
      \<lparr>getRank = Three, getSuit = Hearts\<rparr>, \<lparr>getRank = Three, getSuit = Diamonds\<rparr>,
      \<lparr>getRank = Three, getSuit = Clubs\<rparr>] = Inr False"
  using fiveCardBeats_order
    [of "[\<lparr>getRank = Two, getSuit = Spades\<rparr>, \<lparr>getRank = Ace, getSuit = Spades\<rparr>,
      \<lparr>getRank = Two, getSuit = Hearts\<rparr>, \<lparr>getRank = Ace, getSuit = Hearts\<rparr>,
      \<lparr>getRank = Two, getSuit = Clubs\<rparr>]"
     "[\<lparr>getRank = Three, getSuit = Spades\<rparr>, \<lparr>getRank = Four, getSuit = Diamonds\<rparr>,
      \<lparr>getRank = Three, getSuit = Hearts\<rparr>, \<lparr>getRank = Three, getSuit = Diamonds\<rparr>,
      \<lparr>getRank = Three, getSuit = Clubs\<rparr>]"]
    fullHouse_example fourOfAKind_example
  by auto

section \<open>Decoding and encoding a card\<close>

text \<open>
  Claim C8 at the token \<^verbatim>\<open>10s\<close>. The constructor decodes it to the Ten of Spades;
  \<^verbatim>\<open>toString\<close> builds its result from \<^verbatim>\<open>getRankChar\<close>, a single character, which is
  \<^verbatim>\<open>T\<close> for the Ten, so the re-encoded text is \<^verbatim>\<open>TS\<close> and not \<^verbatim>\<open>10S\<close>. The sibling
  \<^verbatim>\<open>toDisplayString\<close> writes the Ten as \<^verbatim>\<open>10\<close>. A token of another rank, here
  \<^verbatim>\<open>3h\<close>, comes back in its canonical form.
\<close>

theorem toString_ten_not_canonical:
  "Card_of_string ''10s'' = Inr \<lparr>getRank = Ten, getSuit = Spades\<rparr> \<and>
   toString \<lparr>getRank = Ten, getSuit = Spades\<rparr> = ''TS'' \<and>
   toString \<lparr>getRank = Ten, getSuit = Spades\<rparr> \<noteq> ''10S'' \<and>
   toDisplayString \<lparr>getRank = Ten, getSuit = Spades\<rparr> = ''10S'' \<and>
   Card_of_string ''3h'' = Inr \<lparr>getRank = Three, getSuit = Hearts\<rparr> \<and>
   toString \<lparr>getRank = Three, getSuit = Hearts\<rparr> = ''3H''"
  by (simp add: Card_of_string_def charToRank_def charToSuit_def toupper_def char_of_eq_iff
      toString_def toDisplayString_def getRankChar_def getSuitChar_def getSuitSymbol_def)

section \<open>Straights\<close>

lemma all_less_four: "(\<forall>i<4. P i) \<longleftrightarrow> P 0 \<and> P 1 \<and> P 2 \<and> P (3::nat)"
proof -
  have "\<And>i::nat. i < 4 \<longleftrightarrow> i = 0 \<or> i = 1 \<or> i = 2 \<or> i = 3" by arith
  then show ?thesis by auto
qed

lemma isStraight_sorted_vals:
  "isStraight cards \<longleftrightarrow>
     length cards = 5 \<and>
     (\<forall>i. Suc i < 5 \<longrightarrow>
        sort (map (\<lambda>c. rank_val (getRank c)) cards) ! Suc i =
        sort (map (\<lambda>c. rank_val (getRank c)) cards) ! i + 1)"
proof (cases "length cards = 5")
  case True
  have nth: "\<And>i. i < 5 \<Longrightarrow>
      sort (map (\<lambda>c. rank_val (getRank c)) cards) ! i = rank_val (getRank (sortByRank cards ! i))"
    using True by (simp add: sortByRank_rank_vals [symmetric] sortByRank_length)
  have "\<And>i. Suc i < 5 \<Longrightarrow>
      (sort (map (\<lambda>c. rank_val (getRank c)) cards) ! Suc i =
       sort (map (\<lambda>c. rank_val (getRank c)) cards) ! i + 1) =
      (rank_val (getRank (sortByRank cards ! Suc i)) =
       rank_val (getRank (sortByRank cards ! i)) + 1)"
    using nth by simp
  then show ?thesis
    unfolding isStraight_iff by (simp add: True)
next
  case False
  then show ?thesis by (simp add: isStraight_def)
qed

lemma rank_vals_of_ranks:
  "mset (map getRank cards) = mset rs \<Longrightarrow>
   sort (map (\<lambda>c. rank_val (getRank c)) cards) = sort (map rank_val rs)"
proof -
  assume "mset (map getRank cards) = mset rs"
  then have "mset (map rank_val (map getRank cards)) = mset (map rank_val rs)"
    by (metis mset_map)
  then show ?thesis
    using sort_mset_cong [of "map rank_val (map getRank cards)" "map rank_val rs"]
    by (simp add: comp_def)
qed

lemma determineFiveCardType_straight:
  "determineFiveCardType cards \<in> {Straight, StraightFlush} \<longleftrightarrow> isStraight cards"
proof (cases "isStraight cards")
  case True
  then have "length cards = 5" by (simp add: isStraight_def split: if_splits)
  then show ?thesis
    using True isStraight_not_groups [OF True]
    by (simp add: determineFiveCardType_def isStraightFlush_def)
next
  case False
  then show ?thesis
    by (simp add: determineFiveCardType_def isStraightFlush_def)
qed

text \<open>
  Claim C4. A five-card play passes the straight test exactly when, in the play sorted by
  rank, every card is one step above the card before it on the scale 3 .. 2 (on which
  Ten, Jack, Queen, King, Ace, Two follow one another). The classifier then reports
  Straight or, if the play is a flush as well, StraightFlush, and it reports one of the
  two only for such plays. The scale does not wrap around: cards of the ranks King, Ace,
  Two, Three, Four, in any order and of any suits, are not a straight; cards of the ranks
  Jack, Queen, King, Ace, Two are.
\<close>

theorem isStraight_consecutive_no_wraparound:
  "(isStraight cards \<longleftrightarrow>
      length cards = 5 \<and>
      (\<forall>i. Suc i < 5 \<longrightarrow>
         rank_val (getRank (sortByRank cards ! Suc i)) =
         rank_val (getRank (sortByRank cards ! i)) + 1)) \<and>
   mset (sortByRank cards) = mset cards \<and>
   sorted (map (\<lambda>c. rank_val (getRank c)) (sortByRank cards)) \<and>
   (determineFiveCardType cards \<in> {Straight, StraightFlush} \<longleftrightarrow> isStraight cards) \<and>
   (rank_val Jack = rank_val Ten + 1 \<and> rank_val Queen = rank_val Jack + 1 \<and>
    rank_val King = rank_val Queen + 1 \<and> rank_val Ace = rank_val King + 1 \<and>
    rank_val Two = rank_val Ace + 1) \<and>
   (mset (map getRank cards) = mset [King, Ace, Two, Three, Four] \<longrightarrow> \<not> isStraight cards) \<and>
   (mset (map getRank cards) = mset [Jack, Queen, King, Ace, Two] \<longrightarrow> isStraight cards)"
proof -
  have kw: "\<not> isStraight cards" if m: "mset (map getRank cards) = mset [King, Ace, Two, Three, Four]"
  proof -
    have "sort (map (\<lambda>c. rank_val (getRank c)) cards) = [3, 4, 13, 14, 15]"
      using rank_vals_of_ranks [OF m] by simp
    then have "\<not> (\<forall>i. Suc i < 5 \<longrightarrow>
        sort (map (\<lambda>c. rank_val (getRank c)) cards) ! Suc i =
        sort (map (\<lambda>c. rank_val (getRank c)) cards) ! i + 1)"
      by (auto intro!: exI [of _ 1])
    then show ?thesis
      unfolding isStraight_sorted_vals by blast
  qed
  have jq: "isStraight cards" if m: "mset (map getRank cards) = mset [Jack, Queen, King, Ace, Two]"
  proof -
    have "length (map getRank cards) = length [Jack, Queen, King, Ace, Two]"
      using m by (rule mset_eq_length)
    then have len: "length cards = 5" by simp
    have "sort (map (\<lambda>c. rank_val (getRank c)) cards) = [11, 12, 13, 14, 15]"
      using rank_vals_of_ranks [OF m] by simp
    then show ?thesis
      unfolding isStraight_sorted_vals by (simp add: all_less_four len)
  qed
  show ?thesis
    using kw jq isStraight_iff [of cards] determineFiveCardType_straight [of cards]
      sortByRank_mset [of cards] sortByRank_sorted [of cards]
    by simp
qed

theorem isStraight_consecutive_no_wraparound_witness:
  "\<not> isStraight [\<lparr>getRank = King, getSuit = Spades\<rparr>, \<lparr>getRank = Ace, getSuit = Hearts\<rparr>,
       \<lparr>getRank = Two, getSuit = Clubs\<rparr>, \<lparr>getRank = Three, getSuit = Diamonds\<rparr>,
       \<lparr>getRank = Four, getSuit = Spades\<rparr>] \<and>
   isStraight [\<lparr>getRank = Two, getSuit = Clubs\<rparr>, \<lparr>getRank = Jack, getSuit = Spades\<rparr>,
       \<lparr>getRank = King, getSuit = Hearts\<rparr>, \<lparr>getRank = Queen, getSuit = Diamonds\<rparr>,
       \<lparr>getRank = Ace, getSuit = Spades\<rparr>]"
proof -
  have a: "mset (map getRank [\<lparr>getRank = King, getSuit = Spades\<rparr>, \<lparr>getRank = Ace, getSuit = Hearts\<rparr>,
       \<lparr>getRank = Two, getSuit = Clubs\<rparr>, \<lparr>getRank = Three, getSuit = Diamonds\<rparr>,
       \<lparr>getRank = Four, getSuit = Spades\<rparr>]) = mset [King, Ace, Two, Three, Four]"
    by simp
  have b: "mset (map getRank [\<lparr>getRank = Two, getSuit = Clubs\<rparr>, \<lparr>getRank = Jack, getSuit = Spades\<rparr>,
       \<lparr>getRank = King, getSuit = Hearts\<rparr>, \<lparr>getRank = Queen, getSuit = Diamonds\<rparr>,
       \<lparr>getRank = Ace, getSuit = Spades\<rparr>]) = mset [Jack, Queen, King, Ace, Two]"
    by simp
  show ?thesis
    using a b
      isStraight_consecutive_no_wraparound
      [of "[\<lparr>getRank = King, getSuit = Spades\<rparr>, \<lparr>getRank = Ace, getSuit = Hearts\<rparr>,
       \<lparr>getRank = Two, getSuit = Clubs\<rparr>, \<lparr>getRank = Three, getSuit = Diamonds\<rparr>,
       \<lparr>getRank = Four, getSuit = Spades\<rparr>]"]
      isStraight_consecutive_no_wraparound
      [of "[\<lparr>getRank = Two, getSuit = Clubs\<rparr>, \<lparr>getRank = Jack, getSuit = Spades\<rparr>,
       \<lparr>getRank = King, getSuit = Hearts\<rparr>, \<lparr>getRank = Queen, getSuit = Diamonds\<rparr>,
       \<lparr>getRank = Ace, getSuit = Spades\<rparr>]"]
    by blast
qed

section \<open>The five-card shapes exclude one another\<close>

lemma straightFlush_example:
  "determineFiveCardType
     [\<lparr>getRank = Five, getSuit = Hearts\<rparr>, \<lparr>getRank = Three, getSuit = Hearts\<rparr>,
      \<lparr>getRank = Seven, getSuit = Hearts\<rparr>, \<lparr>getRank = Four, getSuit = Hearts\<rparr>,
      \<lparr>getRank = Six, getSuit = Hearts\<rparr>] = StraightFlush"
  by (simp add: determineFiveCardType_def isStraightFlush_def isStraight_def isFlush_def
      sortByRank_def)

text \<open>
  Claim C5. On five cards without a duplicate the classifier reports StraightFlush exactly
  when both the straight test and the flush test hold, FourOfAKind and FullHouse exactly
  when their tests hold, Flush exactly for a flush that is no straight, Straight exactly
  for a straight that is no flush, and None exactly when no test holds. The tests for
  four of a kind, full house, flush and straight exclude one another, except that a
  straight may be a flush, and that is the straight flush.
\<close>

theorem fiveCard_shapes_exclusive:
  assumes "length cards = 5" and "distinct cards"
  shows
  "(determineFiveCardType cards = StraightFlush \<longleftrightarrow> isStraight cards \<and> isFlush cards) \<and>
   (determineFiveCardType cards = FourOfAKind \<longleftrightarrow> isFourOfAKind cards) \<and>
   (determineFiveCardType cards = FullHouse \<longleftrightarrow> isFullHouse cards) \<and>
   (determineFiveCardType cards = Flush \<longleftrightarrow> isFlush cards \<and> \<not> isStraight cards) \<and>
   (determineFiveCardType cards = Straight \<longleftrightarrow> isStraight cards \<and> \<not> isFlush cards) \<and>
   (determineFiveCardType cards = None_t \<longleftrightarrow>
      \<not> isStraight cards \<and> \<not> isFlush cards \<and> \<not> isFullHouse cards \<and> \<not> isFourOfAKind cards) \<and>
   (isStraightFlush cards \<longleftrightarrow> isStraight cards \<and> isFlush cards) \<and>
   \<not> (isFourOfAKind cards \<and> isFullHouse cards) \<and>
   \<not> (isFourOfAKind cards \<and> isFlush cards) \<and>
   \<not> (isFourOfAKind cards \<and> isStraight cards) \<and>
   \<not> (isFullHouse cards \<and> isFlush cards) \<and>
   \<not> (isFullHouse cards \<and> isStraight cards)"
proof -
  have e1: "\<not> (isFourOfAKind cards \<and> isFullHouse cards)"
    using fullHouse_fourOfAKind_exclusive [OF assms(2)] by blast
  have e2: "\<not> (isFourOfAKind cards \<and> isFlush cards)"
    using isFlush_distinct_not_groups(1) [OF _ assms(2)] by blast
  have e3: "\<not> (isFourOfAKind cards \<and> isStraight cards)"
    using isStraight_not_groups(1) by blast
  have e4: "\<not> (isFullHouse cards \<and> isFlush cards)"
    using isFlush_distinct_not_groups(2) [OF _ assms(2)] by blast
  have e5: "\<not> (isFullHouse cards \<and> isStraight cards)"
    using isStraight_not_groups(2) by blast
  show ?thesis
    using e1 e2 e3 e4 e5 assms(1)
    by (auto simp: determineFiveCardType_def isStraightFlush_def)
qed

theorem fiveCard_shapes_exclusive_witness:
  "length [\<lparr>getRank = Five, getSuit = Hearts\<rparr>, \<lparr>getRank = Three, getSuit = Hearts\<rparr>,
           \<lparr>getRank = Seven, getSuit = Hearts\<rparr>, \<lparr>getRank = Four, getSuit = Hearts\<rparr>,
           \<lparr>getRank = Six, getSuit = Hearts\<rparr>] = 5 \<and>
   distinct [\<lparr>getRank = Five, getSuit = Hearts\<rparr>, \<lparr>getRank = Three, getSuit = Hearts\<rparr>,
           \<lparr>getRank = Seven, getSuit = Hearts\<rparr>, \<lparr>getRank = Four, getSuit = Hearts\<rparr>,
           \<lparr>getRank = Six, getSuit = Hearts\<rparr>] \<and>
   determineFiveCardType
          [\<lparr>getRank = Five, getSuit = Hearts\<rparr>, \<lparr>getRank = Three, getSuit = Hearts\<rparr>,
           \<lparr>getRank = Seven, getSuit = Hearts\<rparr>, \<lparr>getRank = Four, getSuit = Hearts\<rparr>,
           \<lparr>getRank = Six, getSuit = Hearts\<rparr>] = StraightFlush \<and>
   \<not> isFourOfAKind
          [\<lparr>getRank = Five, getSuit = Hearts\<rparr>, \<lparr>getRank = Three, getSuit = Hearts\<rparr>,
           \<lparr>getRank = Seven, getSuit = Hearts\<rparr>, \<lparr>getRank = Four, getSuit = Hearts\<rparr>,
           \<lparr>getRank = Six, getSuit = Hearts\<rparr>] \<and>
   \<not> isFullHouse
          [\<lparr>getRank = Five, getSuit = Hearts\<rparr>, \<lparr>getRank = Three, getSuit = Hearts\<rparr>,
           \<lparr>getRank = Seven, getSuit = Hearts\<rparr>, \<lparr>getRank = Four, getSuit = Hearts\<rparr>,
           \<lparr>getRank = Six, getSuit = Hearts\<rparr>]"
proof -
  let ?X = "[\<lparr>getRank = Five, getSuit = Hearts\<rparr>, \<lparr>getRank = Three, getSuit = Hearts\<rparr>,
           \<lparr>getRank = Seven, getSuit = Hearts\<rparr>, \<lparr>getRank = Four, getSuit = Hearts\<rparr>,
           \<lparr>getRank = Six, getSuit = Hearts\<rparr>]"
  have st: "isStraight ?X" by (simp add: isStraight_def sortByRank_def)
  have fl: "isFlush ?X" by (simp add: isFlush_def)
  have h1: "length ?X = 5" by simp
  have h2: "distinct ?X" by simp
  show ?thesis
    using fiveCard_shapes_exclusive [OF h1 h2] st fl h1 h2 by blast
qed

section \<open>Permuting the cards of a play\<close>

lemma list2:
  assumes "length xs = 2"
  obtains a b where "xs = [a, b]"
proof -
  from assms obtain a t1 where 1: "xs = a # t1" "length t1 = 1" by (cases xs) auto
  then obtain b where 2: "t1 = [b]" by (cases t1) auto
  show ?thesis using that 1 2 by simp
qed

lemma list3:
  assumes "length xs = 3"
  obtains a b c where "xs = [a, b, c]"
proof -
  from assms obtain a t1 where 1: "xs = a # t1" "length t1 = 2" by (cases xs) auto
  then obtain b c where 2: "t1 = [b, c]" by (auto elim: list2)
  show ?thesis using that 1 2 by simp
qed

lemma isPair_iff:
  "isPair cards \<longleftrightarrow> length cards = 2 \<and> (\<forall>a\<in>set cards. getRank a = getRank (hd cards))"
proof (cases "length cards = 2")
  case True
  then obtain a b where "cards = [a, b]" by (rule list2)
  then show ?thesis by (auto simp: isPair_def)
next
  case False
  then show ?thesis by (simp add: isPair_def)
qed

lemma isTriple_iff:
  "isTriple cards \<longleftrightarrow> length cards = 3 \<and> (\<forall>a\<in>set cards. getRank a = getRank (hd cards))"
proof (cases "length cards = 3")
  case True
  then obtain a b c where "cards = [a, b, c]" by (rule list3)
  then show ?thesis by (auto simp: isTriple_def)
next
  case False
  then show ?thesis by (simp add: isTriple_def)
qed

lemma same_rank_as_head:
  "cards \<noteq> [] \<Longrightarrow>
   (\<forall>a\<in>set cards. getRank a = getRank (hd cards)) \<longleftrightarrow>
   (\<forall>a\<in>set cards. \<forall>b\<in>set cards. getRank a = getRank b)"
proof
  assume "cards \<noteq> []" "\<forall>a\<in>set cards. getRank a = getRank (hd cards)"
  then show "\<forall>a\<in>set cards. \<forall>b\<in>set cards. getRank a = getRank b" by metis
next
  assume "cards \<noteq> []" "\<forall>a\<in>set cards. \<forall>b\<in>set cards. getRank a = getRank b"
  then show "\<forall>a\<in>set cards. getRank a = getRank (hd cards)" using hd_in_set by blast
qed

lemma isPair_perm: "mset xs = mset ys \<Longrightarrow> isPair xs = isPair ys"
proof -
  assume m: "mset xs = mset ys"
  have l: "length xs = length ys" using m by (rule mset_eq_length)
  have s: "set xs = set ys" using m by (rule mset_eq_setD)
  show ?thesis
  proof (cases "length xs = 2")
    case True
    then have "xs \<noteq> []" "ys \<noteq> []" using l by auto
    then show ?thesis
      unfolding isPair_iff using same_rank_as_head [of xs] same_rank_as_head [of ys] l s
      by simp
  next
    case False
    then show ?thesis using l by (simp add: isPair_def)
  qed
qed

lemma isTriple_perm: "mset xs = mset ys \<Longrightarrow> isTriple xs = isTriple ys"
proof -
  assume m: "mset xs = mset ys"
  have l: "length xs = length ys" using m by (rule mset_eq_length)
  have s: "set xs = set ys" using m by (rule mset_eq_setD)
  show ?thesis
  proof (cases "length xs = 3")
    case True
    then have "xs \<noteq> []" "ys \<noteq> []" using l by auto
    then show ?thesis
      unfolding isTriple_iff using same_rank_as_head [of xs] same_rank_as_head [of ys] l s
      by simp
  next
    case False
    then show ?thesis using l by (simp add: isTriple_def)
  qed
qed

lemma isFlush_perm: "mset xs = mset ys \<Longrightarrow> isFlush xs = isFlush ys"
  unfolding isFlush_iff using mset_eq_length [of xs ys] mset_eq_setD [of xs ys] by simp

lemma sorted_rank_nth_perm:
  assumes "mset xs = mset ys" and "i < length xs"
  shows "getRank (sortByRank xs ! i) = getRank (sortByRank ys ! i)"
proof -
  have l: "length xs = length ys" using assms(1) by (rule mset_eq_length)
  have "getRank (sortByRank xs ! i) = map getRank (sortByRank xs) ! i"
    using assms(2) by (simp add: sortByRank_length)
  also have "\<dots> = map getRank (sortByRank ys) ! i"
    using sortByRank_ranks_perm [OF assms(1)] by simp
  also have "\<dots> = getRank (sortByRank ys ! i)"
    using assms(2) l by (simp add: sortByRank_length)
  finally show ?thesis .
qed

lemma isStraight_perm: "mset xs = mset ys \<Longrightarrow> isStraight xs = isStraight ys"
proof -
  assume m: "mset xs = mset ys"
  have l: "length xs = length ys" using m by (rule mset_eq_length)
  show ?thesis
  proof (cases "length xs = 5")
    case True
    have "\<And>i. i < 5 \<Longrightarrow> getRank (sortByRank xs ! i) = getRank (sortByRank ys ! i)"
      using sorted_rank_nth_perm [OF m] True by simp
    then show ?thesis
      unfolding isStraight_iff using l by simp
  next
    case False
    then show ?thesis using l by (simp add: isStraight_def)
  qed
qed

lemma isFullHouse_perm: "mset xs = mset ys \<Longrightarrow> isFullHouse xs = isFullHouse ys"
proof -
  assume m: "mset xs = mset ys"
  have l: "length xs = length ys" using m by (rule mset_eq_length)
  show ?thesis
  proof (cases "length xs = 5")
    case True
    have "\<And>i. i < 5 \<Longrightarrow> getRank (sortByRank xs ! i) = getRank (sortByRank ys ! i)"
      using sorted_rank_nth_perm [OF m] True by simp
    then show ?thesis
      unfolding isFullHouse_def Let_def using l by simp
  next
    case False
    then show ?thesis using l by (simp add: isFullHouse_def)
  qed
qed

lemma isFourOfAKind_perm: "mset xs = mset ys \<Longrightarrow> isFourOfAKind xs = isFourOfAKind ys"
proof -
  assume m: "mset xs = mset ys"
  have l: "length xs = length ys" using m by (rule mset_eq_length)
  show ?thesis
  proof (cases "length xs = 5")
    case True
    have "\<And>i. i < 5 \<Longrightarrow> getRank (sortByRank xs ! i) = getRank (sortByRank ys ! i)"
      using sorted_rank_nth_perm [OF m] True by simp
    then show ?thesis
      unfolding isFourOfAKind_def Let_def using l by simp
  next
    case False
    then show ?thesis using l by (simp add: isFourOfAKind_def)
  qed
qed

lemma determineFiveCardType_perm:
  assumes "mset xs = mset ys"
  shows "determineFiveCardType xs = determineFiveCardType ys"
proof -
  have l: "length xs = length ys" using assms by (rule mset_eq_length)
  have st: "isStraight xs = isStraight ys" using assms by (rule isStraight_perm)
  have fl: "isFlush xs = isFlush ys" using assms by (rule isFlush_perm)
  have fh: "isFullHouse xs = isFullHouse ys" using assms by (rule isFullHouse_perm)
  have fk: "isFourOfAKind xs = isFourOfAKind ys" using assms by (rule isFourOfAKind_perm)
  show ?thesis
    by (simp only: determineFiveCardType_def isStraightFlush_def l st fl fh fk)
qed

lemma determinePlayType_perm:
  assumes "mset xs = mset ys"
  shows "determinePlayType xs = determinePlayType ys"
proof -
  have l: "length xs = length ys" using assms by (rule mset_eq_length)
  have p: "isPair xs = isPair ys" using assms by (rule isPair_perm)
  have t: "isTriple xs = isTriple ys" using assms by (rule isTriple_perm)
  have f: "determineFiveCardType xs = determineFiveCardType ys"
    using assms by (rule determineFiveCardType_perm)
  show ?thesis
    by (simp only: determinePlayType_def l p t f)
qed

lemma getHighestCard_set:
  assumes "set xs = set ys"
  shows "getHighestCard xs = getHighestCard ys"
proof (cases "xs = []")
  case True
  then have "ys = []" using assms by simp
  then show ?thesis using True by simp
next
  case False
  then have ny: "ys \<noteq> []" using assms by auto
  obtain h where h: "getHighestCard xs = Inr h" "h \<in> set xs" "\<forall>c\<in>set xs. card_le c h"
    using getHighestCard_max [OF False] by blast
  obtain h' where h': "getHighestCard ys = Inr h'" "h' \<in> set ys" "\<forall>c\<in>set ys. card_le c h'"
    using getHighestCard_max [OF ny] by blast
  have "h = h'"
    using maximum_unique [of h "set xs" h'] h h' assms by simp
  then show ?thesis using h(1) h'(1) by simp
qed

lemma compareHighest_set:
  assumes "set xs = set xs'" and "set ys = set ys'"
  shows "compareHighest xs ys = compareHighest xs' ys'"
proof -
  have x: "getHighestCard xs = getHighestCard xs'" using assms(1) by (rule getHighestCard_set)
  have y: "getHighestCard ys = getHighestCard ys'" using assms(2) by (rule getHighestCard_set)
  show ?thesis by (simp only: compareHighest_def x y)
qed

lemma singleton_perm: "mset xs = mset ys \<Longrightarrow> length xs = 1 \<Longrightarrow> xs = ys"
proof -
  assume m: "mset xs = mset ys" and l: "length xs = 1"
  then obtain a where a: "xs = [a]" by (cases xs) auto
  have "length ys = 1" using m l mset_eq_length by metis
  then obtain b where b: "ys = [b]" by (cases ys) auto
  show ?thesis using m a b by simp
qed

text \<open>
  Claim C10. The classifiers and the comparator do not depend on the order of the cards:
  two plays with the same cards (as multisets) get the same result of
  \<^verbatim>\<open>determinePlayType\<close> and of \<^verbatim>\<open>determineFiveCardType\<close>, and \<^verbatim>\<open>doesPlayBeat\<close> gives the
  same answer when either of its arguments is permuted.
\<close>

theorem classification_permutation_invariant:
  assumes "mset cards' = mset cards" and "mset lastPlay' = mset lastPlay"
  shows "determinePlayType cards' = determinePlayType cards \<and>
         determineFiveCardType cards' = determineFiveCardType cards \<and>
         doesPlayBeat cards' lastPlay' = doesPlayBeat cards lastPlay"
proof -
  have pt: "determinePlayType cards' = determinePlayType cards"
    using assms(1) by (rule determinePlayType_perm)
  have ft: "determineFiveCardType cards' = determineFiveCardType cards"
    using assms(1) by (rule determineFiveCardType_perm)
  have fl: "determineFiveCardType lastPlay' = determineFiveCardType lastPlay"
    using assms(2) by (rule determineFiveCardType_perm)
  have lc: "length cards' = length cards" using assms(1) by (rule mset_eq_length)
  have ll: "length lastPlay' = length lastPlay" using assms(2) by (rule mset_eq_length)
  have le: "lastPlay' = [] \<longleftrightarrow> lastPlay = []" using ll by auto
  have cmp: "compareHighest cards' lastPlay' = compareHighest cards lastPlay"
    using assms mset_eq_setD compareHighest_set by blast
  have single: "determinePlayType cards = Single \<Longrightarrow> length cards = length lastPlay \<Longrightarrow>
      cards' = cards \<and> lastPlay' = lastPlay"
  proof -
    assume "determinePlayType cards = Single" and e: "length cards = length lastPlay"
    then have "length cards = 1"
      by (auto simp: determinePlayType_def Let_def split: if_splits)
    then show ?thesis
      using singleton_perm [of cards' cards] singleton_perm [of lastPlay' lastPlay]
        assms lc ll e by simp
  qed
  have "doesPlayBeat cards' lastPlay' = doesPlayBeat cards lastPlay"
  proof (cases "lastPlay = [] \<or> length cards \<noteq> length lastPlay")
    case True
    then show ?thesis using le lc ll by (auto simp: doesPlayBeat_def)
  next
    case False
    then show ?thesis
      using single le lc ll pt ft fl cmp
      by (cases "determinePlayType cards")
         (auto simp: doesPlayBeat_def pairBeats_alt tripleBeats_alt fiveCardBeats_alt Let_def)
  qed
  then show ?thesis using pt ft by simp
qed

theorem classification_permutation_invariant_witness:
  "mset [\<lparr>getRank = Five, getSuit = Hearts\<rparr>, \<lparr>getRank = Three, getSuit = Hearts\<rparr>,
         \<lparr>getRank = Seven, getSuit = Hearts\<rparr>, \<lparr>getRank = Four, getSuit = Hearts\<rparr>,
         \<lparr>getRank = Six, getSuit = Hearts\<rparr>] =
   mset [\<lparr>getRank = Three, getSuit = Hearts\<rparr>, \<lparr>getRank = Four, getSuit = Hearts\<rparr>,
         \<lparr>getRank = Five, getSuit = Hearts\<rparr>, \<lparr>getRank = Six, getSuit = Hearts\<rparr>,
         \<lparr>getRank = Seven, getSuit = Hearts\<rparr>] \<and>
   mset [\<lparr>getRank = Three, getSuit = Spades\<rparr>, \<lparr>getRank = Four, getSuit = Diamonds\<rparr>,
         \<lparr>getRank = Three, getSuit = Hearts\<rparr>, \<lparr>getRank = Three, getSuit = Diamonds\<rparr>,
         \<lparr>getRank = Three, getSuit = Clubs\<rparr>] =
   mset [\<lparr>getRank = Three, getSuit = Diamonds\<rparr>, \<lparr>getRank = Three, getSuit = Clubs\<rparr>,
         \<lparr>getRank = Three, getSuit = Hearts\<rparr>, \<lparr>getRank = Three, getSuit = Spades\<rparr>,
         \<lparr>getRank = Four, getSuit = Diamonds\<rparr>] \<and>
   determineFiveCardType
        [\<lparr>getRank = Three, getSuit = Hearts\<rparr>, \<lparr>getRank = Four, getSuit = Hearts\<rparr>,
         \<lparr>getRank = Five, getSuit = Hearts\<rparr>, \<lparr>getRank = Six, getSuit = Hearts\<rparr>,
         \<lparr>getRank = Seven, getSuit = Hearts\<rparr>] = StraightFlush \<and>
   doesPlayBeat
        [\<lparr>getRank = Three, getSuit = Hearts\<rparr>, \<lparr>getRank = Four, getSuit = Hearts\<rparr>,
         \<lparr>getRank = Five, getSuit = Hearts\<rparr>, \<lparr>getRank = Six, getSuit = Hearts\<rparr>,
         \<lparr>getRank = Seven, getSuit = Hearts\<rparr>]
        [\<lparr>getRank = Three, getSuit = Diamonds\<rparr>, \<lparr>getRank = Three, getSuit = Clubs\<rparr>,
         \<lparr>getRank = Three, getSuit = Hearts\<rparr>, \<lparr>getRank = Three, getSuit = Spades\<rparr>,
         \<lparr>getRank = Four, getSuit = Diamonds\<rparr>] =
   doesPlayBeat
        [\<lparr>getRank = Five, getSuit = Hearts\<rparr>, \<lparr>getRank = Three, getSuit = Hearts\<rparr>,
         \<lparr>getRank = Seven, getSuit = Hearts\<rparr>, \<lparr>getRank = Four, getSuit = Hearts\<rparr>,
         \<lparr>getRank = Six, getSuit = Hearts\<rparr>]
        [\<lparr>getRank = Three, getSuit = Spades\<rparr>, \<lparr>getRank = Four, getSuit = Diamonds\<rparr>,
         \<lparr>getRank = Three, getSuit = Hearts\<rparr>, \<lparr>getRank = Three, getSuit = Diamonds\<rparr>,
         \<lparr>getRank = Three, getSuit = Clubs\<rparr>]"
proof -
  let ?A = "[\<lparr>getRank = Five, getSuit = Hearts\<rparr>, \<lparr>getRank = Three, getSuit = Hearts\<rparr>,
         \<lparr>getRank = Seven, getSuit = Hearts\<rparr>, \<lparr>getRank = Four, getSuit = Hearts\<rparr>,
         \<lparr>getRank = Six, getSuit = Hearts\<rparr>]"
  let ?A' = "[\<lparr>getRank = Three, getSuit = Hearts\<rparr>, \<lparr>getRank = Four, getSuit = Hearts\<rparr>,
         \<lparr>getRank = Five, getSuit = Hearts\<rparr>, \<lparr>getRank = Six, getSuit = Hearts\<rparr>,
         \<lparr>getRank = Seven, getSuit = Hearts\<rparr>]"
  let ?L = "[\<lparr>getRank = Three, getSuit = Spades\<rparr>, \<lparr>getRank = Four, getSuit = Diamonds\<rparr>,
         \<lparr>getRank = Three, getSuit = Hearts\<rparr>, \<lparr>getRank = Three, getSuit = Diamonds\<rparr>,
         \<lparr>getRank = Three, getSuit = Clubs\<rparr>]"
  let ?L' = "[\<lparr>getRank = Three, getSuit = Diamonds\<rparr>, \<lparr>getRank = Three, getSuit = Clubs\<rparr>,
         \<lparr>getRank = Three, getSuit = Hearts\<rparr>, \<lparr>getRank = Three, getSuit = Spades\<rparr>,
         \<lparr>getRank = Four, getSuit = Diamonds\<rparr>]"
  have h1: "mset ?A' = mset ?A" by simp
  have h2: "mset ?L' = mset ?L" by simp
  have sf: "determineFiveCardType ?A = StraightFlush"
    by (rule straightFlush_example)
  show ?thesis
    using classification_permutation_invariant [OF h1 h2] h1 h2 sf by simp
qed

end
